theory Spec2Isabelle
  imports Complex_Main "HOL-Library.AList" "HOL-Library.Multiset"
    "HOL-Library.List_Lexorder" "HOL-Library.Product_Lexorder"
begin

section \<open>JavaScript values\<close>

text \<open>
  The module \<^verbatim>\<open>classApi.js\<close> is dynamically typed: a student record, a points field
  or an increment can hold any value. The embedding therefore works over a datatype of
  JavaScript values, restricted to the values a Firestore document and a plain call
  argument can hold (no functions, symbols or bigints).

  A JavaScript number is an IEEE double. It is modelled here as \<open>NaN\<close>, the two
  infinities, or a finite value held as an exact rational; \<open>+\<close> on finite values is exact
  (a double addition is, whenever its result is representable, which includes every
  integer below \<open>2^53\<close>). The sign of zero is not modelled.
\<close>

datatype jsnum = NaN | PosInf | NegInf | Fin rat

datatype jsval =
    JUndefined
  | JNull
  | JBool bool
  | JNum jsnum
  | JStr string
  | JArr "jsval list"
  | JObj "(string \<times> jsval) list"

type_synonym fields = "(string \<times> jsval) list"

text \<open>
  An object keeps its properties as an association list in insertion order; a property
  is read with \<open>map_of\<close> and written with \<open>AList.update\<close>, which replaces an
  existing key in place and appends a new one, as an object literal or a spread does.
  (JavaScript enumerates integer keys first; no function of the module depends on the
  order.) The keys of an object are distinct; the lists built by the module's functions
  are, and a theorem that reads a given list through \<open>map_of\<close> assumes it.
\<close>

datatype error = TypeError | Error string

text \<open>
  Conversions whose ECMAScript definition is a grammar or a printing algorithm are taken
  as parameters: \<open>StringToNumber\<close> (the numeric value of a string, \<open>NaN\<close> when it is
  not a numeric literal), \<open>ToString\<close> of a value that is not a string, and
  \<open>localeCompare\<close>, the collation \<^verbatim>\<open>x.localeCompare(y, undefined, {numeric: true,
  sensitivity: "base"})\<close> of the host's default locale, whose result is negative, zero or
  positive. Every theorem below holds for all such functions.
\<close>

record builtins =
  StringToNumber :: "string \<Rightarrow> jsnum"
  ToString :: "jsval \<Rightarrow> string"
  localeCompare :: "string \<Rightarrow> string \<Rightarrow> int"

subsection \<open>Operators\<close>

text \<open>Truthiness, as tested by \<^verbatim>\<open>!x\<close>, \<^verbatim>\<open>x || y\<close> and \<^verbatim>\<open>x && y\<close>.\<close>

fun num_truthy :: "jsnum \<Rightarrow> bool" where
  "num_truthy NaN = False"
| "num_truthy PosInf = True"
| "num_truthy NegInf = True"
| "num_truthy (Fin q) = (q \<noteq> 0)"

fun truthy :: "jsval \<Rightarrow> bool" where
  "truthy JUndefined = False"
| "truthy JNull = False"
| "truthy (JBool b) = b"
| "truthy (JNum n) = num_truthy n"
| "truthy (JStr s) = (s \<noteq> [])"
| "truthy (JArr xs) = True"
| "truthy (JObj kvs) = True"

text \<open>\<^verbatim>\<open>x || y\<close> and \<^verbatim>\<open>x ?? y\<close> for operands without effects.\<close>

definition js_or :: "jsval \<Rightarrow> jsval \<Rightarrow> jsval" where
  "js_or x y = (if truthy x then x else y)"

fun nullish :: "jsval \<Rightarrow> bool" where
  "nullish JUndefined = True"
| "nullish JNull = True"
| "nullish v = False"

definition js_coalesce :: "jsval \<Rightarrow> jsval \<Rightarrow> jsval" where
  "js_coalesce x y = (if nullish x then y else x)"

text \<open>
  Property read \<^verbatim>\<open>v.k\<close>. Reading a property of \<^verbatim>\<open>undefined\<close> or \<^verbatim>\<open>null\<close>
  throws a TypeError. The module reads only the keys \<^verbatim>\<open>id\<close>, \<^verbatim>\<open>name\<close>,
  \<^verbatim>\<open>daily\<close>, \<^verbatim>\<open>total\<close>, \<^verbatim>\<open>points\<close>, \<^verbatim>\<open>_extra\<close>, \<^verbatim>\<open>displayName\<close> and
  \<^verbatim>\<open>idPrefix\<close>; none of them is a property of a boolean, a number, a string or an
  array, where the read gives \<^verbatim>\<open>undefined\<close>.
\<close>

definition field_of :: "fields \<Rightarrow> string \<Rightarrow> jsval" where
  "field_of kvs k = (case map_of kvs k of Some v \<Rightarrow> v | None \<Rightarrow> JUndefined)"

fun get :: "jsval \<Rightarrow> string \<Rightarrow> error + jsval" where
  "get JUndefined k = Inl TypeError"
| "get JNull k = Inl TypeError"
| "get (JObj kvs) k = Inr (field_of kvs k)"
| "get v k = Inr JUndefined"

text \<open>Optional chaining \<^verbatim>\<open>v?.k\<close>.\<close>

fun get_opt :: "jsval \<Rightarrow> string \<Rightarrow> jsval" where
  "get_opt (JObj kvs) k = field_of kvs k"
| "get_opt v k = JUndefined"

text \<open>\<^verbatim>\<open>typeof v === "number"\<close>.\<close>

fun is_number :: "jsval \<Rightarrow> bool" where
  "is_number (JNum n) = True"
| "is_number v = False"

text \<open>
  \<^verbatim>\<open>Number(v)\<close>. An array or a plain object is first converted to a string
  (their \<^verbatim>\<open>valueOf\<close> returns the object itself).
\<close>

fun ToNumber :: "builtins \<Rightarrow> jsval \<Rightarrow> jsnum" where
  "ToNumber B JUndefined = NaN"
| "ToNumber B JNull = Fin 0"
| "ToNumber B (JBool b) = (if b then Fin 1 else Fin 0)"
| "ToNumber B (JNum n) = n"
| "ToNumber B (JStr s) = StringToNumber B s"
| "ToNumber B (JArr xs) = StringToNumber B (ToString B (JArr xs))"
| "ToNumber B (JObj kvs) = StringToNumber B (ToString B (JObj kvs))"

text \<open>\<^verbatim>\<open>Math.trunc\<close>: the integer part, rounding toward zero.\<close>

definition trunc_rat :: "rat \<Rightarrow> rat" where
  "trunc_rat q = (if 0 \<le> q then of_int \<lfloor>q\<rfloor> else of_int \<lceil>q\<rceil>)"

fun Math_trunc :: "jsnum \<Rightarrow> jsnum" where
  "Math_trunc (Fin q) = Fin (trunc_rat q)"
| "Math_trunc n = n"

text \<open>\<^verbatim>\<open>Math.max\<close> of two numbers: \<open>NaN\<close> if either is.\<close>

fun Math_max :: "jsnum \<Rightarrow> jsnum \<Rightarrow> jsnum" where
  "Math_max NaN b = NaN"
| "Math_max a NaN = NaN"
| "Math_max PosInf b = PosInf"
| "Math_max a PosInf = PosInf"
| "Math_max NegInf b = b"
| "Math_max a NegInf = a"
| "Math_max (Fin p) (Fin q) = Fin (max p q)"

text \<open>Addition of numbers.\<close>

fun num_add :: "jsnum \<Rightarrow> jsnum \<Rightarrow> jsnum" where
  "num_add NaN b = NaN"
| "num_add a NaN = NaN"
| "num_add PosInf NegInf = NaN"
| "num_add NegInf PosInf = NaN"
| "num_add PosInf b = PosInf"
| "num_add a PosInf = PosInf"
| "num_add NegInf b = NegInf"
| "num_add a NegInf = NegInf"
| "num_add (Fin p) (Fin q) = Fin (p + q)"

text \<open>
  \<^verbatim>\<open>a + v\<close> for a number \<open>a\<close>: string concatenation when \<open>v\<close> is a string or
  converts to one (an array, an object), numeric addition otherwise.
\<close>

fun js_add :: "builtins \<Rightarrow> jsnum \<Rightarrow> jsval \<Rightarrow> jsval" where
  "js_add B a (JStr s) = JStr (ToString B (JNum a) @ s)"
| "js_add B a (JArr xs) = JStr (ToString B (JNum a) @ ToString B (JArr xs))"
| "js_add B a (JObj kvs) = JStr (ToString B (JNum a) @ ToString B (JObj kvs))"
| "js_add B a v = JNum (num_add a (ToNumber B v))"

text \<open>
  The comparison \<^verbatim>\<open>n >= 0\<close> on a number, and being an integer. A value is
  \<open>nonneg\<close> when it is a number and \<^verbatim>\<open>>= 0\<close>.
\<close>

fun num_nonneg :: "jsnum \<Rightarrow> bool" where
  "num_nonneg (Fin q) = (0 \<le> q)"
| "num_nonneg PosInf = True"
| "num_nonneg n = False"

fun num_is_integer :: "jsnum \<Rightarrow> bool" where
  "num_is_integer (Fin q) = (q = of_int \<lfloor>q\<rfloor>)"
| "num_is_integer n = False"

fun nonneg :: "jsval \<Rightarrow> bool" where
  "nonneg (JNum n) = num_nonneg n"
| "nonneg v = False"

text \<open>
  Object spread \<^verbatim>\<open>{...acc, ...v}\<close>: the own enumerable properties of \<open>v\<close> are
  written over \<open>acc\<close> in order. \<^verbatim>\<open>undefined\<close>, \<^verbatim>\<open>null\<close>, booleans and numbers have
  none; a string and an array have their indices.
\<close>

fun digit_char :: "nat \<Rightarrow> char" where
  "digit_char n = char_of (48 + n)"

fun index_key :: "nat \<Rightarrow> string" where
  "index_key n = (if n < 10 then [digit_char n] else index_key (n div 10) @ [digit_char (n mod 10)])"

fun own_props :: "jsval \<Rightarrow> fields" where
  "own_props (JObj kvs) = kvs"
| "own_props (JStr s) = map (\<lambda>i. (index_key i, JStr [s ! i])) [0..<length s]"
| "own_props (JArr xs) = map (\<lambda>i. (index_key i, xs ! i)) [0..<length xs]"
| "own_props v = []"

definition assign :: "fields \<Rightarrow> fields \<Rightarrow> fields" where
  "assign acc kvs = foldl (\<lambda>a (k, v). AList.update k v a) acc kvs"

definition spread :: "fields \<Rightarrow> jsval \<Rightarrow> fields" where
  "spread acc v = assign acc (own_props v)"

section \<open>Utilities of the module\<close>

text \<open>
  \<^verbatim>\<open>export const toInt = (n) => Math.max(0, Math.trunc(Number(n) || 0));\<close>
\<close>

definition toInt :: "builtins \<Rightarrow> jsval \<Rightarrow> jsnum" where
  "toInt B n = Math_max (Fin 0)
     (Math_trunc (let x = ToNumber B n in if num_truthy x then x else Fin 0))"

text \<open>\<^verbatim>\<open>function required(what) { throw new Error(`Missing: ${what}`); }\<close>\<close>

definition required :: "string \<Rightarrow> error + 'a" where
  "required what = Inl (Error (''Missing: '' @ what))"

text \<open>
  \<^verbatim>\<open>normalizeStudent(s)\<close>. The property reads that can throw are the reads of \<open>s\<close>
  itself, when \<open>s\<close> is \<^verbatim>\<open>undefined\<close> or \<^verbatim>\<open>null\<close>; the reads of \<^verbatim>\<open>s.points\<close> are
  optional chains. A read has no effect, so \<^verbatim>\<open>s.total\<close> is read here whether or not
  \<^verbatim>\<open>??\<close> comes to it.
\<close>

definition reading :: "jsval \<Rightarrow> string \<Rightarrow> (jsval \<Rightarrow> error + 'a) \<Rightarrow> error + 'a" where
  "reading v k f = (case get v k of Inl e \<Rightarrow> Inl e | Inr x \<Rightarrow> f x)"

definition normalizeStudent :: "builtins \<Rightarrow> jsval \<Rightarrow> error + fields" where
  "normalizeStudent B s =
     reading s ''name'' (\<lambda>s_name.
     let base = [(''name'', js_coalesce s_name (JStr [])), (''points'', JObj [])] in
     reading s ''daily'' (\<lambda>s_daily.
     reading s ''points'' (\<lambda>s_points.
     reading s ''total'' (\<lambda>s_total.
     let daily = js_coalesce s_daily (get_opt s_points ''daily'');
         total = js_coalesce (js_coalesce (get_opt s_points ''total'') s_total) s_points;
         points = JObj [(''daily'', JNum (toInt B (js_or daily (JNum (Fin 0))))),
                        (''total'', JNum (toInt B (js_or total (JNum (Fin 0)))))] in
     reading s ''id'' (\<lambda>s_id.
     reading s ''_extra'' (\<lambda>s_extra.
       Inr (spread (AList.update ''points'' points (AList.update ''id'' s_id base)) s_extra)))))))"

section \<open>The document store\<close>

text \<open>
  The Firestore SDK and its backend are outside the module. They are modelled as an
  idealised store: a document reference is the list of its path segments as the module
  passes them to \<^verbatim>\<open>doc\<close> (the SDK's validation of paths and of field values is not
  modelled), every operation succeeds, and calls are sequential. The store keeps its
  documents as an association list, and the write requests it has received in order.
  A snapshot lists the documents in the order of that list. The operations keep the
  paths of the list distinct.
\<close>

type_synonym path = "jsval list"

datatype op = Delete path | SetMerge path fields

datatype event = SetDoc path fields | DeleteDoc path | Commit "op list"

record backend =
  docs :: "(path \<times> fields) list"
  requests :: "event list"

text \<open>
  A write with \<^verbatim>\<open>{merge: true}\<close> sets the leaf fields of the data and leaves the other
  fields of the stored document as they are: a non-empty map is merged into a stored
  map field by field, any other value (an empty map included) replaces the stored one.
\<close>

fun merge_value :: "jsval option \<Rightarrow> jsval \<Rightarrow> jsval"
  and merge_fields :: "fields \<Rightarrow> fields \<Rightarrow> fields" where
  "merge_value (Some (JObj old)) (JObj (kv # new)) = JObj (merge_fields old (kv # new))"
| "merge_value old v = v"
| "merge_fields old [] = old"
| "merge_fields old ((k, v) # new) =
     merge_fields (AList.update k (merge_value (map_of old k) v) old) new"

definition stored :: "(path \<times> fields) list \<Rightarrow> path \<Rightarrow> fields" where
  "stored ds p = (case map_of ds p of Some old \<Rightarrow> old | None \<Rightarrow> [])"

fun apply_op :: "(path \<times> fields) list \<Rightarrow> op \<Rightarrow> (path \<times> fields) list" where
  "apply_op ds (Delete p) = AList.delete p ds"
| "apply_op ds (SetMerge p d) = AList.update p (merge_fields (stored ds p) d) ds"

text \<open>\<^verbatim>\<open>setDoc(ref, data, {merge: true})\<close>, \<^verbatim>\<open>deleteDoc(ref)\<close>, \<^verbatim>\<open>batch.commit()\<close>.\<close>

definition setDoc :: "backend \<Rightarrow> path \<Rightarrow> fields \<Rightarrow> backend" where
  "setDoc st p d = st\<lparr>docs := apply_op (docs st) (SetMerge p d), requests := requests st @ [SetDoc p d]\<rparr>"

definition deleteDoc :: "backend \<Rightarrow> path \<Rightarrow> backend" where
  "deleteDoc st p = st\<lparr>docs := apply_op (docs st) (Delete p), requests := requests st @ [DeleteDoc p]\<rparr>"

definition commit :: "backend \<Rightarrow> op list \<Rightarrow> backend" where
  "commit st ops = st\<lparr>docs := foldl apply_op (docs st) ops, requests := requests st @ [Commit ops]\<rparr>"

text \<open>
  \<^verbatim>\<open>getDoc(ref)\<close> (\<open>None\<close> when the snapshot does not exist) and
  \<^verbatim>\<open>getDocs(collection(...))\<close>: the documents directly under the collection, as
  pairs of \<^verbatim>\<open>d.id\<close> and \<^verbatim>\<open>d.data()\<close>.
\<close>

definition getDoc :: "backend \<Rightarrow> path \<Rightarrow> fields option" where
  "getDoc st p = map_of (docs st) p"

definition getDocs :: "backend \<Rightarrow> path \<Rightarrow> (jsval \<times> fields) list" where
  "getDocs st coll = [(last p, d). (p, d) \<leftarrow> docs st, p \<noteq> [] \<and> butlast p = coll]"

definition class_path :: "jsval \<Rightarrow> path" where
  "class_path classId = [JStr ''classes'', classId]"

definition students_path :: "jsval \<Rightarrow> path" where
  "students_path classId = [JStr ''classes'', classId, JStr ''students'']"

definition student_path :: "jsval \<Rightarrow> jsval \<Rightarrow> path" where
  "student_path classId studentId = students_path classId @ [studentId]"

section \<open>The module\<close>

subsection \<open>Class list and metadata\<close>







text \<open>
  \<^verbatim>\<open>watchClass\<close>: the rows its roster listener builds from a snapshot and passes to
  \<^verbatim>\<open>onStudents\<close>.
\<close>

record student_row =
  s_id :: jsval
  s_name :: jsval
  s_points :: jsval
  s_daily :: jsval
  s_raw :: fields

definition student_of_doc :: "jsval \<times> fields \<Rightarrow> student_row" where
  "student_of_doc d = (case d of (i, s) \<Rightarrow>
     let p = field_of s ''points'' in
     \<lparr>s_id = i,
      s_name = js_or (field_of s ''name'') (JStr []),
      s_points = (if truthy p \<and> is_number (get_opt p ''total'') then get_opt p ''total''
                  else JNum (Fin 0)),
      s_daily = (if truthy p \<and> is_number (get_opt p ''daily'') then get_opt p ''daily''
                 else JNum (Fin 0)),
      s_raw = s\<rparr>)"

definition watchClass_rows :: "(jsval \<times> fields) list \<Rightarrow> student_row list" where
  "watchClass_rows snap = map student_of_doc snap"

definition watchClass_students :: "backend \<Rightarrow> jsval \<Rightarrow> student_row list" where
  "watchClass_students st classId = watchClass_rows (getDocs st (students_path classId))"

subsection \<open>Class CRUD\<close>


text \<open>
  \<^verbatim>\<open>deleteClass\<close>. The loop carries the open batch, the counter \<^verbatim>\<open>ops\<close> and the
  store.
\<close>

fun delete_loop ::
  "path \<Rightarrow> (jsval \<times> fields) list \<Rightarrow> op list \<Rightarrow> nat \<Rightarrow> backend \<Rightarrow> op list \<times> nat \<times> backend" where
  "delete_loop coll [] batch ops st = (batch, ops, st)"
| "delete_loop coll (d # ds) batch ops st =
     (let batch' = batch @ [Delete (coll @ [fst d])]; ops' = Suc ops in
      if ops' mod 400 = 0 then delete_loop coll ds [] ops' (commit st batch')
      else delete_loop coll ds batch' ops' st)"

definition deleteClass :: "backend \<Rightarrow> jsval \<Rightarrow> backend" where
  "deleteClass st classId =
     (let students = getDocs st (students_path classId) in
      case delete_loop (students_path classId) students [] 0 st of
        (batch, ops, st1) \<Rightarrow> deleteDoc (commit st1 batch) (class_path classId))"

subsection \<open>Student helpers\<close>

text \<open>\<^verbatim>\<open>getStudent\<close> returns \<^verbatim>\<open>{ id: snap.id, ...snap.data() }\<close>, or \<^verbatim>\<open>null\<close> (\<open>None\<close>).\<close>

definition getStudent :: "backend \<Rightarrow> jsval \<Rightarrow> jsval \<Rightarrow> fields option" where
  "getStudent st classId studentId =
     (case getDoc st (student_path classId studentId) of
        Some data \<Rightarrow> Some (assign [(''id'', studentId)] data)
      | None \<Rightarrow> None)"

definition setStudent :: "backend \<Rightarrow> jsval \<Rightarrow> jsval \<Rightarrow> fields \<Rightarrow> backend" where
  "setStudent st classId studentId fs = setDoc st (student_path classId studentId) fs"

text \<open>
  \<^verbatim>\<open>saveStudentsBatch\<close>: the two \<^verbatim>\<open>forEach\<close> loops over \<^verbatim>\<open>adds\<close> and
  \<^verbatim>\<open>edits\<close> have the same body but for the message; \<open>set_all\<close> is that loop. An
  absent \<^verbatim>\<open>adds\<close>, \<^verbatim>\<open>edits\<close> or \<^verbatim>\<open>dels\<close> is the empty list.
\<close>

fun set_all :: "builtins \<Rightarrow> path \<Rightarrow> string \<Rightarrow> jsval list \<Rightarrow> op list \<Rightarrow> error + op list" where
  "set_all B base what [] batch = Inr batch"
| "set_all B base what (s # ss) batch =
     reading s ''id'' (\<lambda>s_id.
       case (if truthy s_id then Inr s_id else required what) of
         Inl e \<Rightarrow> Inl e
       | Inr i \<Rightarrow>
           (case normalizeStudent B s of
              Inl e \<Rightarrow> Inl e
            | Inr n \<Rightarrow> set_all B base what ss (batch @ [SetMerge (base @ [i]) n])))"

definition saveStudentsBatch ::
  "builtins \<Rightarrow> backend \<Rightarrow> jsval \<Rightarrow> jsval list \<Rightarrow> jsval list \<Rightarrow> jsval list \<Rightarrow> (error + unit) \<times> backend" where
  "saveStudentsBatch B st classId adds edits dels =
     (let base = students_path classId;
          batch0 = map (\<lambda>i. Delete (base @ [i])) dels in
      case set_all B base ''adds[].id'' adds batch0 of
        Inl e \<Rightarrow> (Inl e, st)
      | Inr batch1 \<Rightarrow>
          (case set_all B base ''edits[].id'' edits batch1 of
             Inl e \<Rightarrow> (Inl e, st)
           | Inr batch2 \<Rightarrow> (Inr (), commit st batch2)))"

subsection \<open>Common actions\<close>

definition zero_points :: jsval where
  "zero_points = JObj [(''daily'', JNum (Fin 0)), (''total'', JNum (Fin 0))]"

text \<open>
  \<^verbatim>\<open>incrementPoints(db, classId, studentId, { daily = 1, total = 1 } = {})\<close>: the last
  argument defaults to \<^verbatim>\<open>{}\<close> when it is \<^verbatim>\<open>undefined\<close>, and each of its two
  properties to 1 when it is \<^verbatim>\<open>undefined\<close>; destructuring \<^verbatim>\<open>null\<close> throws.
  \<^verbatim>\<open>pts\<close> is truthy, so reading its properties does not throw.
\<close>

definition default_to :: "jsval \<Rightarrow> jsval \<Rightarrow> jsval" where
  "default_to v d = (if v = JUndefined then d else v)"

definition incrementPoints ::
  "builtins \<Rightarrow> backend \<Rightarrow> jsval \<Rightarrow> jsval \<Rightarrow> jsval \<Rightarrow> (error + unit) \<times> backend" where
  "incrementPoints B st classId studentId arg =
     (let arg' = default_to arg (JObj []) in
      case reading arg' ''daily'' (\<lambda>d. reading arg' ''total'' (\<lambda>t. Inr (d, t))) of
        Inl e \<Rightarrow> (Inl e, st)
      | Inr (d, t) \<Rightarrow>
          let daily = default_to d (JNum (Fin 1));
              total = default_to t (JNum (Fin 1));
              cur = (case getStudent st classId studentId of Some c \<Rightarrow> c | None \<Rightarrow> []);
              pts = js_or (field_of cur ''points'') zero_points
          in (Inr (), setStudent st classId studentId
                [(''points'', JObj [(''daily'', js_add B (toInt B (get_opt pts ''daily'')) daily),
                                    (''total'', js_add B (toInt B (get_opt pts ''total'')) total)])]))"

definition resetDaily :: "builtins \<Rightarrow> backend \<Rightarrow> jsval \<Rightarrow> jsval \<Rightarrow> backend" where
  "resetDaily B st classId studentId =
     (case getStudent st classId studentId of
        None \<Rightarrow> st
      | Some cur \<Rightarrow> setStudent st classId studentId
          [(''points'', JObj [(''daily'', JNum (Fin 0)),
                              (''total'', JNum (toInt B (get_opt (field_of cur ''points'') ''total'')))])])"

definition resetTotal :: "builtins \<Rightarrow> backend \<Rightarrow> jsval \<Rightarrow> jsval \<Rightarrow> backend" where
  "resetTotal B st classId studentId =
     (case getStudent st classId studentId of
        None \<Rightarrow> st
      | Some cur \<Rightarrow> setStudent st classId studentId
          [(''points'', JObj [(''daily'', JNum (toInt B (get_opt (field_of cur ''points'') ''daily''))),
                              (''total'', JNum (Fin 0))])])"

definition add_daily :: "builtins \<Rightarrow> path \<Rightarrow> jsval \<times> fields \<Rightarrow> op" where
  "add_daily B coll d = (case d of (i, s) \<Rightarrow>
     let pts = js_or (field_of s ''points'') zero_points in
     SetMerge (coll @ [i])
       (AList.update ''points''
          (JObj [(''daily'', JNum (num_add (toInt B (get_opt pts ''daily'')) (Fin 1))),
                 (''total'', JNum (num_add (toInt B (get_opt pts ''total'')) (Fin 1)))])
          (assign [] s)))"

definition addDailyToAll :: "builtins \<Rightarrow> backend \<Rightarrow> jsval \<Rightarrow> backend" where
  "addDailyToAll B st classId =
     commit st (map (add_daily B (students_path classId)) (getDocs st (students_path classId)))"

section \<open>An instance of the parameters\<close>

text \<open>
  The theorems hold for every \<open>builtins\<close>. To evaluate the model on concrete inputs,
  \<open>sample_builtins\<close> gives one instance: a string of decimal digits converts to its
  value, the empty string to 0 and any other string to \<open>NaN\<close>; values other than
  strings and plain objects are printed as the empty string; and strings are compared
  by an ASCII stand-in for the numeric, base-sensitivity collation: a run of digits
  compares by its value and before any other character, letters compare without case.
\<close>

definition is_digit :: "char \<Rightarrow> bool" where
  "is_digit c = (48 \<le> (of_char c :: nat) \<and> (of_char c :: nat) \<le> 57)"

definition digit_val :: "char \<Rightarrow> nat" where
  "digit_val c = of_char c - 48"

definition lower :: "char \<Rightarrow> nat" where
  "lower c = (let n = of_char c in if 65 \<le> n \<and> n \<le> 90 then n + 32 else n)"

definition flush :: "nat option \<Rightarrow> (nat \<times> nat) list" where
  "flush acc = (case acc of None \<Rightarrow> [] | Some n \<Rightarrow> [(0, n)])"

fun collation_key :: "nat option \<Rightarrow> string \<Rightarrow> (nat \<times> nat) list" where
  "collation_key acc [] = flush acc"
| "collation_key acc (c # cs) =
     (if is_digit c
      then collation_key (Some (10 * (case acc of None \<Rightarrow> 0 | Some n \<Rightarrow> n) + digit_val c)) cs
      else flush acc @ (1, lower c) # collation_key None cs)"

definition sample_compare :: "string \<Rightarrow> string \<Rightarrow> int" where
  "sample_compare x y =
     (let a = collation_key None x; b = collation_key None y
      in if a < b then - 1 else if a = b then 0 else 1)"

definition sample_number :: "string \<Rightarrow> jsnum" where
  "sample_number s =
     (if s = [] then Fin 0
      else if list_all is_digit s then Fin (of_nat (foldl (\<lambda>n c. 10 * n + digit_val c) 0 s))
      else NaN)"

definition sample_string :: "jsval \<Rightarrow> string" where
  "sample_string v = (case v of JStr s \<Rightarrow> s | JObj kvs \<Rightarrow> ''[object Object]'' | _ \<Rightarrow> [])"

definition sample_builtins :: builtins where
  "sample_builtins =
     \<lparr>StringToNumber = sample_number, ToString = sample_string, localeCompare = sample_compare\<rparr>"

section \<open>Notions used in the statements\<close>

text \<open>
  The value stored at \<^verbatim>\<open>points.k\<close> in a document: absent when the document has no
  \<^verbatim>\<open>points\<close> map or the map has no key \<open>k\<close>.
\<close>

definition stored_points :: "fields \<Rightarrow> string \<Rightarrow> jsval option" where
  "stored_points s k = (case map_of s ''points'' of Some (JObj p) \<Rightarrow> map_of p k | _ \<Rightarrow> None)"

definition or_undefined :: "jsval option \<Rightarrow> jsval" where
  "or_undefined v = (case v of Some x \<Rightarrow> x | None \<Rightarrow> JUndefined)"

text \<open>A value if it is a number, and 0 if it is absent or not a number.\<close>

definition number_or_zero :: "jsval option \<Rightarrow> jsval" where
  "number_or_zero v = (case v of Some (JNum n) \<Rightarrow> JNum n | _ \<Rightarrow> JNum (Fin 0))"

text \<open>
  The object \<^verbatim>\<open>{...base, id: s.id, points}\<close> that \<^verbatim>\<open>normalizeStudent\<close> builds before
  it spreads \<^verbatim>\<open>s._extra\<close> over it.
\<close>

definition canonical :: "builtins \<Rightarrow> jsval \<Rightarrow> fields" where
  "canonical B s =
     [(''name'', js_coalesce (get_opt s ''name'') (JStr [])),
      (''points'', JObj
         [(''daily'', JNum (toInt B (js_or (js_coalesce (get_opt s ''daily'')
              (get_opt (get_opt s ''points'') ''daily'')) (JNum (Fin 0))))),
          (''total'', JNum (toInt B (js_or (js_coalesce (js_coalesce
              (get_opt (get_opt s ''points'') ''total'') (get_opt s ''total''))
              (get_opt s ''points'')) (JNum (Fin 0)))))]),
      (''id'', get_opt s ''id'')]"

text \<open>
  A stored value that \<^verbatim>\<open>toInt\<close> leaves as it is: a number that is a non-negative
  integer, or \<^verbatim>\<open>Infinity\<close>.
\<close>

definition normalized :: "jsval option \<Rightarrow> bool" where
  "normalized v = (case v of Some (JNum n) \<Rightarrow> num_nonneg n \<and> (num_is_integer n \<or> n = PosInf) | _ \<Rightarrow> False)"

text \<open>
  What a merge-write of \<^verbatim>\<open>{points: {daily: d, total: t}}\<close> to the document at \<open>p\<close>,
  which held \<open>data\<close>, has done between the states \<open>st\<close> and \<open>st'\<close>: the store has
  received that one request; the document holds \<open>d\<close> and \<open>t\<close> at \<^verbatim>\<open>points.daily\<close>
  and \<^verbatim>\<open>points.total\<close> and its other fields as before; every other document is as
  before.
\<close>

definition wrote_points :: "backend \<Rightarrow> backend \<Rightarrow> path \<Rightarrow> fields \<Rightarrow> jsnum \<Rightarrow> jsnum \<Rightarrow> bool" where
  "wrote_points st st' p data d t =
     (requests st' = requests st @
         [SetDoc p [(''points'', JObj [(''daily'', JNum d), (''total'', JNum t)])]] \<and>
      (\<exists>data'. getDoc st' p = Some data' \<and>
         stored_points data' ''daily'' = Some (JNum d) \<and>
         stored_points data' ''total'' = Some (JNum t) \<and>
         (\<forall>k. k \<noteq> ''points'' \<longrightarrow> map_of data' k = map_of data k)) \<and>
      (\<forall>q. q \<noteq> p \<longrightarrow> getDoc st' q = getDoc st q))"

text \<open>The value of \<^verbatim>\<open>await getStudent(...) || {}\<close>.\<close>

definition cur_of :: "backend \<Rightarrow> jsval \<Rightarrow> jsval \<Rightarrow> fields" where
  "cur_of st c s = (case getStudent st c s of Some cur \<Rightarrow> cur | None \<Rightarrow> [])"

text \<open>
  The points fields of a write are non-negative: the data written has a \<^verbatim>\<open>points\<close> map
  whose \<^verbatim>\<open>daily\<close> and \<^verbatim>\<open>total\<close> are numbers \<^verbatim>\<open>>= 0\<close>. A request is in order when
  every write it makes is; \<open>written st st'\<close> are the requests the store has received
  between the states \<open>st\<close> and \<open>st'\<close>.
\<close>

definition points_nonneg :: "fields \<Rightarrow> bool" where
  "points_nonneg fs =
     (case map_of fs ''points'' of
        Some (JObj p) \<Rightarrow> nonneg (field_of p ''daily'') \<and> nonneg (field_of p ''total'')
      | _ \<Rightarrow> False)"

fun op_ok :: "op \<Rightarrow> bool" where
  "op_ok (Delete p) = True"
| "op_ok (SetMerge p fs) = points_nonneg fs"

fun event_ok :: "event \<Rightarrow> bool" where
  "event_ok (SetDoc p fs) = points_nonneg fs"
| "event_ok (DeleteDoc p) = True"
| "event_ok (Commit ops) = list_all op_ok ops"

definition written :: "backend \<Rightarrow> backend \<Rightarrow> event list" where
  "written st st' = drop (length (requests st)) (requests st')"

text \<open>An increment that is left out, or is a number \<^verbatim>\<open>>= 0\<close>.\<close>

definition nonneg_or_absent :: "jsval \<Rightarrow> bool" where
  "nonneg_or_absent v = (v = JUndefined \<or> nonneg v)"

text \<open>
  The state of the loop of \<^verbatim>\<open>deleteClass\<close> after the documents \<open>ds\<close>, started with the
  open batch \<open>batch\<close> and the counter \<open>ops\<close>: the batches \<open>bs\<close> have been committed,
  each of 400 operations, and with the open batch they hold the deletions of \<open>ds\<close> in
  order.
\<close>

definition loop_post ::
  "path \<Rightarrow> (jsval \<times> fields) list \<Rightarrow> op list \<Rightarrow> nat \<Rightarrow> backend \<Rightarrow> op list list \<Rightarrow>
   op list \<times> nat \<times> backend \<Rightarrow> bool" where
  "loop_post coll ds batch ops st bs r = (case r of (batch', ops', st') \<Rightarrow>
      requests st' = requests st @ map Commit bs \<and>
      docs st' = foldl apply_op (docs st) (concat bs) \<and>
      list_all (\<lambda>b. length b = 400) bs \<and>
      concat bs @ batch' = batch @ map (\<lambda>d. Delete (coll @ [fst d])) ds \<and>
      length batch' = ops' mod 400 \<and> ops' = ops + length ds)"





text \<open>A store for the examples: three classes, and three students in class \<open>C\<close>.\<close>

definition sample_store :: backend where
  "sample_store =
     \<lparr>docs =
        [(class_path (JStr ''C''), [(''displayName'', JStr ''Class 10''), (''idPrefix'', JStr ''c'')]),
         (class_path (JStr ''D''), [(''displayName'', JStr ''class 2'')]),
         (class_path (JStr ''B''), []),
         (student_path (JStr ''C'') (JStr ''s1''),
            [(''name'', JStr ''Al''), (''points'', zero_points)]),
         (student_path (JStr ''C'') (JStr ''s2''),
            [(''name'', JStr ''Bo''),
             (''points'', JObj [(''daily'', JNum (Fin 3)), (''total'', JNum (Fin 7))])]),
         (student_path (JStr ''C'') (JStr ''s3''), [(''name'', JStr ''Cy'')])],
      requests = []\<rparr>"

section \<open>Integer coercion\<close>

lemma trunc_rat_of_int: "trunc_rat (of_int m) = of_int m"
  by (simp add: trunc_rat_def)

lemma trunc_rat_int: "\<exists>m. trunc_rat q = of_int m"
  by (auto simp: trunc_rat_def)

lemma toInt_eq:
  "toInt B x = (case ToNumber B x of NaN \<Rightarrow> Fin 0 | PosInf \<Rightarrow> PosInf | NegInf \<Rightarrow> Fin 0
                | Fin q \<Rightarrow> Fin (max 0 (trunc_rat q)))"
  by (cases "ToNumber B x") (auto simp: toInt_def trunc_rat_def)

lemma max_trunc_int: "\<exists>m\<ge>0. max 0 (trunc_rat q) = of_int m"
proof -
  obtain m where m: "trunc_rat q = of_int m" using trunc_rat_int by blast
  show ?thesis
  proof (cases "0 \<le> m")
    case True
    then show ?thesis using m by (intro exI[of _ m]) (simp add: max_def)
  next
    case False
    then show ?thesis using m by (intro exI[of _ 0]) (simp add: max_def)
  qed
qed

lemma toInt_shape: "toInt B x = PosInf \<or> (\<exists>m\<ge>0. toInt B x = Fin (of_int m))"
  using max_trunc_int by (cases "ToNumber B x") (auto simp: toInt_eq)

lemma toInt_fixed: "0 \<le> m \<Longrightarrow> toInt B (JNum (Fin (of_int m))) = Fin (of_int m)"
  by (simp add: toInt_eq trunc_rat_of_int max_def)

lemma toInt_nonneg: "num_nonneg (toInt B x)"
  using toInt_shape[of B x] by auto

text \<open>
  C2, as stated: \<^verbatim>\<open>toInt\<close> returns a non-negative integer for every input. It does not
  for \<^verbatim>\<open>Infinity\<close>: \<^verbatim>\<open>Math.trunc(Infinity)\<close> and \<^verbatim>\<open>Math.max(0, Infinity)\<close>
  are \<^verbatim>\<open>Infinity\<close>, which is not an integer.
\<close>

theorem toInt_infinity_not_integer:
  "toInt sample_builtins (JNum PosInf) = PosInf \<and>
   \<not> num_is_integer (toInt sample_builtins (JNum PosInf))"
  by (simp add: toInt_def)

text \<open>
  C2, amended: for every input \<open>x\<close>, \<^verbatim>\<open>toInt(toInt(x))\<close> is \<^verbatim>\<open>toInt(x)\<close> and
  \<^verbatim>\<open>toInt(x)\<close> is a number \<^verbatim>\<open>>= 0\<close>; it is an integer for every input whose numeric
  conversion \<^verbatim>\<open>Number(x)\<close> is not \<^verbatim>\<open>Infinity\<close>; and it is 0 for every non-numeric
  input, that is, whenever \<^verbatim>\<open>Number(x)\<close> is \<^verbatim>\<open>NaN\<close>.
\<close>

theorem toInt_idempotent_nonneg:
  "toInt B (JNum (toInt B x)) = toInt B x \<and>
   num_nonneg (toInt B x) \<and>
   (ToNumber B x \<noteq> PosInf \<longrightarrow> num_is_integer (toInt B x)) \<and>
   (ToNumber B x = NaN \<longrightarrow> toInt B x = Fin 0)"
proof -
  have idem: "toInt B (JNum (toInt B x)) = toInt B x"
    using toInt_shape[of B x] by (auto simp: toInt_fixed) (simp add: toInt_eq)
  have nn: "num_nonneg (toInt B x)"
    by (rule toInt_nonneg)
  have int: "ToNumber B x \<noteq> PosInf \<longrightarrow> num_is_integer (toInt B x)"
  proof (cases "ToNumber B x")
    case (Fin q)
    obtain m where "max 0 (trunc_rat q) = of_int m" using max_trunc_int by blast
    with Fin show ?thesis by (simp add: toInt_eq)
  qed (simp_all add: toInt_eq)
  have nan: "ToNumber B x = NaN \<longrightarrow> toInt B x = Fin 0"
    by (simp add: toInt_eq)
  from idem nn int nan show ?thesis by blast
qed

theorem toInt_idempotent_nonneg_witness:
  "toInt sample_builtins (JNum (toInt sample_builtins (JStr ''abc''))) = toInt sample_builtins (JStr ''abc'') \<and>
   num_nonneg (toInt sample_builtins (JStr ''abc'')) \<and>
   ToNumber sample_builtins (JStr ''abc'') = NaN \<and>
   toInt sample_builtins (JStr ''abc'') = Fin 0 \<and>
   ToNumber sample_builtins (JNum (Fin (- 7 / 2))) = Fin (- 7 / 2) \<and>
   toInt sample_builtins (JNum (Fin (- 7 / 2))) = Fin 0 \<and>
   ToNumber sample_builtins (JNum (Fin (7 / 2))) = Fin (7 / 2) \<and>
   toInt sample_builtins (JNum (Fin (7 / 2))) = Fin 3 \<and>
   num_is_integer (toInt sample_builtins (JNum (Fin (7 / 2)))) \<and>
   toInt sample_builtins (JNum (toInt sample_builtins (JNum (Fin (7 / 2))))) = Fin 3"
proof -
  have n: "ToNumber sample_builtins (JStr ''abc'') = NaN"
    by (simp add: sample_builtins_def sample_number_def is_digit_def)
  note a = toInt_idempotent_nonneg[of sample_builtins "JStr ''abc''"]
  note b = toInt_idempotent_nonneg[of sample_builtins "JNum (Fin (7 / 2))"]
  have f: "ToNumber sample_builtins (JNum (Fin (7 / 2))) \<noteq> PosInf" by simp
  have e: "toInt sample_builtins (JNum (Fin (- 7 / 2))) = Fin 0"
      "toInt sample_builtins (JNum (Fin (7 / 2))) = Fin 3"
    by code_simp+
  from b f have i: "num_is_integer (toInt sample_builtins (JNum (Fin (7 / 2))))" by blast
  from b e have j: "toInt sample_builtins (JNum (toInt sample_builtins (JNum (Fin (7 / 2))))) = Fin 3"
    by simp
  have g: "ToNumber sample_builtins (JNum (Fin (- 7 / 2))) = Fin (- 7 / 2)"
      "ToNumber sample_builtins (JNum (Fin (7 / 2))) = Fin (7 / 2)"
    by simp_all
  from a n have a': "toInt sample_builtins (JNum (toInt sample_builtins (JStr ''abc''))) =
      toInt sample_builtins (JStr ''abc'')"
    "num_nonneg (toInt sample_builtins (JStr ''abc''))"
    "toInt sample_builtins (JStr ''abc'') = Fin 0"
    by blast+
  from a' n e g i j show ?thesis by blast
qed

section \<open>Objects and normalization\<close>

lemma map_of_assign:
  "map_of (assign acc kvs) k =
     (case map_of (rev kvs) k of Some v \<Rightarrow> Some v | None \<Rightarrow> map_of acc k)"
proof (induction kvs arbitrary: acc)
  case Nil
  then show ?case by (simp add: assign_def)
next
  case (Cons kv kvs)
  obtain k' v' where kv: "kv = (k', v')" by (cases kv)
  have "map_of (assign acc (kv # kvs)) k = map_of (assign (AList.update k' v' acc) kvs) k"
    by (simp add: assign_def kv)
  also have "\<dots> = (case map_of (rev kvs) k of Some v \<Rightarrow> Some v
                     | None \<Rightarrow> map_of (AList.update k' v' acc) k)"
    by (rule Cons.IH)
  also have "\<dots> = (case map_of (rev (kv # kvs)) k of Some v \<Rightarrow> Some v | None \<Rightarrow> map_of acc k)"
    by (simp add: kv update_conv' map_add_def split: option.splits)
  finally show ?case .
qed

lemma map_of_rev_distinct: "distinct (map fst kvs) \<Longrightarrow> map_of (rev kvs) k = map_of kvs k"
proof (induction kvs)
  case Nil
  then show ?case by simp
next
  case (Cons kv kvs)
  then have "map_of kvs (fst kv) = None"
    by (simp add: map_of_eq_None_iff)
  with Cons show ?case
    by (cases kv) (auto simp: map_add_def split: option.splits)
qed

lemma map_of_assign_distinct:
  "distinct (map fst kvs) \<Longrightarrow>
   map_of (assign acc kvs) k = (case map_of kvs k of Some v \<Rightarrow> Some v | None \<Rightarrow> map_of acc k)"
  by (simp add: map_of_assign map_of_rev_distinct)

lemma map_of_assign_other:
  assumes "k \<notin> fst ` set kvs"
  shows "map_of (assign acc kvs) k = map_of acc k"
proof -
  from assms have "map_of (rev kvs) k = None"
    by (simp add: map_of_eq_None_iff)
  then show ?thesis by (simp add: map_of_assign)
qed

lemma get_not_nullish: "\<not> nullish s \<Longrightarrow> get s k = Inr (get_opt s k)"
  by (cases s) auto

lemma normalizeStudent_eq:
  "\<not> nullish s \<Longrightarrow>
   normalizeStudent B s = Inr (spread (canonical B s) (get_opt s ''_extra''))"
  by (simp add: normalizeStudent_def reading_def Let_def get_not_nullish canonical_def)

lemma normalizeStudent_nullish: "nullish s \<Longrightarrow> normalizeStudent B s = Inl TypeError"
  by (cases s) (auto simp: normalizeStudent_def reading_def)

lemma normalizeStudent_extra:
  assumes "get_opt s ''_extra'' = JObj ex" "distinct (map fst ex)" "map_of ex k = Some v"
  shows "\<exists>n. normalizeStudent B s = Inr n \<and> map_of n k = Some v"
proof -
  from assms(1) have nn: "\<not> nullish s" by (cases s) auto
  have "map_of (spread (canonical B s) (JObj ex)) k = Some v"
    using assms by (simp add: spread_def map_of_assign_distinct)
  with normalizeStudent_eq[OF nn, of B] assms(1) show ?thesis by simp
qed

section \<open>The roster rows of watchClass\<close>

lemma flat_points:
  "(let p = field_of s ''points'' in
     if truthy p \<and> is_number (get_opt p k) then get_opt p k else JNum (Fin 0)) =
   number_or_zero (stored_points s k)"
  by (auto simp: field_of_def stored_points_def number_or_zero_def Let_def
      split: option.splits jsval.splits)

text \<open>
  C9: every row passed to \<^verbatim>\<open>onStudents\<close> has the stored \<^verbatim>\<open>points.total\<close> as its
  field \<^verbatim>\<open>points\<close> and the stored \<^verbatim>\<open>points.daily\<close> as its field \<^verbatim>\<open>daily\<close>, each
  replaced by 0 when the stored value is absent or is not of type number, and the
  document's data as \<^verbatim>\<open>_raw\<close>.
\<close>

theorem watchClass_rows_flatten:
  "watchClass_rows snap =
     map (\<lambda>(i, s). \<lparr>s_id = i,
                     s_name = js_or (field_of s ''name'') (JStr []),
                     s_points = number_or_zero (stored_points s ''total''),
                     s_daily = number_or_zero (stored_points s ''daily''),
                     s_raw = s\<rparr>) snap"
  using flat_points[of _ "''total''"] flat_points[of _ "''daily''"]
  by (simp add: watchClass_rows_def student_of_doc_def Let_def split_def)

theorem watchClass_rows_flatten_witness:
  "watchClass_rows (getDocs sample_store (students_path (JStr ''C''))) =
     [\<lparr>s_id = JStr ''s1'', s_name = JStr ''Al'', s_points = JNum (Fin 0), s_daily = JNum (Fin 0),
       s_raw = [(''name'', JStr ''Al''), (''points'', zero_points)]\<rparr>,
      \<lparr>s_id = JStr ''s2'', s_name = JStr ''Bo'', s_points = JNum (Fin 7), s_daily = JNum (Fin 3),
       s_raw = [(''name'', JStr ''Bo''),
                (''points'', JObj [(''daily'', JNum (Fin 3)), (''total'', JNum (Fin 7))])]\<rparr>,
      \<lparr>s_id = JStr ''s3'', s_name = JStr ''Cy'', s_points = JNum (Fin 0), s_daily = JNum (Fin 0),
       s_raw = [(''name'', JStr ''Cy'')]\<rparr>]"
proof -
  have ds: "getDocs sample_store (students_path (JStr ''C'')) =
      [(JStr ''s1'', [(''name'', JStr ''Al''), (''points'', zero_points)]),
       (JStr ''s2'', [(''name'', JStr ''Bo''),
             (''points'', JObj [(''daily'', JNum (Fin 3)), (''total'', JNum (Fin 7))])]),
       (JStr ''s3'', [(''name'', JStr ''Cy'')])]"
    by code_simp
  show ?thesis
    unfolding ds watchClass_rows_flatten
    by (simp add: stored_points_def number_or_zero_def zero_points_def js_or_def field_of_def)
qed

section \<open>createClass\<close>



section \<open>saveStudentsBatch\<close>

lemma normalizeStudent_total: "\<not> nullish s \<Longrightarrow> \<exists>n. normalizeStudent B s = Inr n"
  by (simp add: normalizeStudent_eq)

lemma set_all_step:
  assumes "\<not> nullish s" "truthy (get_opt s ''id'')"
  shows "set_all B base what (s # ss) batch =
         set_all B base what ss
           (batch @ [SetMerge (base @ [get_opt s ''id'']) (spread (canonical B s) (get_opt s ''_extra''))])"
  using assms by (simp add: reading_def get_not_nullish normalizeStudent_eq)

lemma set_all_stop:
  assumes "\<not> nullish s" "\<not> truthy (get_opt s ''id'')"
  shows "set_all B base what (s # ss) batch = Inl (Error (''Missing: '' @ what))"
  using assms by (simp add: reading_def get_not_nullish required_def)

lemma set_all_nullish:
  assumes "nullish s"
  shows "set_all B base what (s # ss) batch = Inl TypeError"
  using assms by (cases s) (auto simp: reading_def)


lemma set_all_succeeds:
  assumes "\<forall>s\<in>set ss. \<not> nullish s \<and> truthy (get_opt s ''id'')"
  shows "set_all B base what ss batch =
     Inr (batch @ map (\<lambda>s. SetMerge (base @ [get_opt s ''id''])
                              (spread (canonical B s) (get_opt s ''_extra''))) ss)"
  using assms
proof (induction ss arbitrary: batch)
  case Nil
  then show ?case by simp
next
  case (Cons s ss)
  then have nn: "\<not> nullish s" and t: "truthy (get_opt s ''id'')" by simp_all
  from Cons.prems have "\<forall>s\<in>set ss. \<not> nullish s \<and> truthy (get_opt s ''id'')" by simp
  from Cons.IH[OF this] show ?case
    by (simp only: set_all_step[OF nn t]) simp
qed

lemma set_all_Inr:
  "set_all B base what ss batch = Inr r \<Longrightarrow>
   \<forall>s\<in>set ss. \<not> nullish s \<and> truthy (get_opt s ''id'')"
proof (induction ss arbitrary: batch)
  case Nil
  then show ?case by simp
next
  case (Cons s ss)
  have nn: "\<not> nullish s"
    using Cons.prems set_all_nullish[of s B base what ss batch] by auto
  have t: "truthy (get_opt s ''id'')"
    using Cons.prems set_all_stop[OF nn, of B base what ss batch] by auto
  from Cons.prems have "set_all B base what ss
      (batch @ [SetMerge (base @ [get_opt s ''id'']) (spread (canonical B s) (get_opt s ''_extra''))]) = Inr r"
    by (simp only: set_all_step[OF nn t])
  from Cons.IH[OF this] nn t show ?case by simp
qed



lemma saveStudentsBatch_Inr:
  assumes "saveStudentsBatch B st classId adds edits dels = (Inr (), st')"
  shows "st' = commit st (map (\<lambda>i. Delete (students_path classId @ [i])) dels @
           map (\<lambda>s. SetMerge (student_path classId (get_opt s ''id''))
                      (spread (canonical B s) (get_opt s ''_extra''))) (adds @ edits)) \<and>
         (\<forall>s\<in>set (adds @ edits). \<not> nullish s \<and> truthy (get_opt s ''id''))"
proof -
  let ?base = "students_path classId"
  let ?b0 = "map (\<lambda>i. Delete (?base @ [i])) dels"
  from assms obtain b1 where b1: "set_all B ?base ''adds[].id'' adds ?b0 = Inr b1"
    by (auto simp: saveStudentsBatch_def Let_def split: sum.splits)
  from assms b1 obtain b2 where b2: "set_all B ?base ''edits[].id'' edits b1 = Inr b2"
    by (auto simp: saveStudentsBatch_def Let_def split: sum.splits)
  from assms b1 b2 have st': "st' = commit st b2"
    by (simp add: saveStudentsBatch_def Let_def)
  note a = set_all_Inr[OF b1] and e = set_all_Inr[OF b2]
  from b1 set_all_succeeds[OF a, of B ?base "''adds[].id''" ?b0]
  have "b1 = ?b0 @ map (\<lambda>s. SetMerge (?base @ [get_opt s ''id''])
                              (spread (canonical B s) (get_opt s ''_extra''))) adds" by simp
  moreover from b2 set_all_succeeds[OF e, of B ?base "''edits[].id''" b1]
  have "b2 = b1 @ map (\<lambda>s. SetMerge (?base @ [get_opt s ''id''])
                              (spread (canonical B s) (get_opt s ''_extra''))) edits" by simp
  ultimately show ?thesis using st' a e by (auto simp: student_path_def)
qed

text \<open>
  C10: when \<^verbatim>\<open>s._extra\<close> is an object with a key \<open>k\<close>, the output of
  \<^verbatim>\<open>normalizeStudent(s)\<close> has the value of \<^verbatim>\<open>s._extra[k]\<close> at \<open>k\<close>, whatever the
  normalization computed for that key (\<^verbatim>\<open>points\<close>, \<^verbatim>\<open>id\<close> and \<^verbatim>\<open>name\<close>
  included), and every successful \<^verbatim>\<open>saveStudentsBatch\<close> with \<open>s\<close> among its adds or
  edits commits a batch that writes this output: an \<^verbatim>\<open>_extra.points\<close> reaches the write
  as it is, not coerced by \<^verbatim>\<open>toInt\<close>.
\<close>

theorem extra_overrides_normalized:
  assumes "get_opt s ''_extra'' = JObj ex" "distinct (map fst ex)" "map_of ex k = Some v"
  shows "\<exists>n. normalizeStudent B s = Inr n \<and> map_of n k = Some v \<and>
     (\<forall>st classId adds edits dels st'.
        saveStudentsBatch B st classId adds edits dels = (Inr (), st') \<and> s \<in> set (adds @ edits) \<longrightarrow>
        (\<exists>batch. requests st' = requests st @ [Commit batch] \<and>
                  SetMerge (student_path classId (get_opt s ''id'')) n \<in> set batch))"
proof -
  from assms(1) have nn: "\<not> nullish s" by (cases s) auto
  let ?n = "spread (canonical B s) (get_opt s ''_extra'')"
  have n: "normalizeStudent B s = Inr ?n" by (rule normalizeStudent_eq[OF nn])
  from normalizeStudent_extra[OF assms, of B] n have v: "map_of ?n k = Some v" by simp
  have "\<exists>batch. requests st' = requests st @ [Commit batch] \<and>
                  SetMerge (student_path classId (get_opt s ''id'')) ?n \<in> set batch"
    if "saveStudentsBatch B st classId adds edits dels = (Inr (), st')" "s \<in> set (adds @ edits)"
    for st classId adds edits dels st'
  proof -
    from saveStudentsBatch_Inr[OF that(1)] that(2) show ?thesis
      by (auto simp: commit_def)
  qed
  with n v show ?thesis by blast
qed

theorem extra_overrides_normalized_witness:
  "\<exists>n batch.
     normalizeStudent sample_builtins
       (JObj [(''id'', JStr ''a''), (''points'', JNum (Fin 5)),
              (''_extra'', JObj [(''points'', JNum (Fin (- 1)))])]) = Inr n \<and>
     map_of n ''points'' = Some (JNum (Fin (- 1))) \<and>
     requests (snd (saveStudentsBatch sample_builtins sample_store (JStr ''C'')
       [JObj [(''id'', JStr ''a''), (''points'', JNum (Fin 5)),
              (''_extra'', JObj [(''points'', JNum (Fin (- 1)))])]] [] [])) = [Commit batch] \<and>
     SetMerge (student_path (JStr ''C'') (JStr ''a'')) n \<in> set batch"
proof -
  let ?s = "JObj [(''id'', JStr ''a''), (''points'', JNum (Fin 5)),
              (''_extra'', JObj [(''points'', JNum (Fin (- 1)))])]"
  let ?r = "saveStudentsBatch sample_builtins sample_store (JStr ''C'') [?s] [] []"
  have ok: "?r = (Inr (), snd ?r)"
    by (simp add: saveStudentsBatch_def Let_def reading_def field_of_def normalizeStudent_def)
  obtain n where n: "normalizeStudent sample_builtins ?s = Inr n"
      "map_of n ''points'' = Some (JNum (Fin (- 1)))"
    and all: "\<And>st classId adds edits dels st'.
        saveStudentsBatch sample_builtins st classId adds edits dels = (Inr (), st') \<and> ?s \<in> set (adds @ edits) \<Longrightarrow>
        (\<exists>batch. requests st' = requests st @ [Commit batch] \<and>
                  SetMerge (student_path classId (get_opt ?s ''id'')) n \<in> set batch)"
    using extra_overrides_normalized[of ?s "[(''points'', JNum (Fin (- 1)))]" "''points''"
        "JNum (Fin (- 1))" sample_builtins]
    by (auto simp: field_of_def)
  from all[of sample_store "JStr ''C''" "[?s]" "[]" "[]" "snd ?r"] ok
  obtain batch where "requests (snd ?r) = requests sample_store @ [Commit batch]"
     "SetMerge (student_path (JStr ''C'') (get_opt ?s ''id'')) n \<in> set batch"
    by auto
  with n show ?thesis by (auto simp: field_of_def sample_store_def)
qed

section \<open>Point actions on one student\<close>

lemma toInt_normalized: "normalized (Some (JNum n)) \<Longrightarrow> toInt B (JNum n) = n"
proof (cases n)
  case (Fin q)
  assume "normalized (Some (JNum n))"
  with Fin have q: "0 \<le> q" "q = of_int \<lfloor>q\<rfloor>" by (simp_all add: normalized_def)
  then have "trunc_rat q = q" by (simp add: trunc_rat_def)
  with q Fin show ?thesis by (simp add: toInt_eq max_def)
qed (simp_all add: normalized_def toInt_eq)

lemma get_opt_points: "get_opt (field_of s ''points'') k = or_undefined (stored_points s k)"
  by (auto simp: field_of_def stored_points_def or_undefined_def split: option.splits jsval.splits)

lemma toInt_undefined: "toInt B JUndefined = Fin 0"
  by (simp add: toInt_eq)

lemma toInt_zero: "toInt B (JNum (Fin 0)) = Fin 0"
  by (simp add: toInt_eq trunc_rat_def)

lemma pts_read:
  assumes "k = ''daily'' \<or> k = ''total''"
  shows "toInt B (get_opt (js_or (field_of cur ''points'') zero_points) k) =
         toInt B (or_undefined (stored_points cur k))"
proof (cases "truthy (field_of cur ''points'')")
  case True
  then show ?thesis by (simp add: js_or_def get_opt_points)
next
  case False
  then have "stored_points cur k = None"
    by (auto simp: stored_points_def field_of_def split: option.splits jsval.splits)
  with False assms show ?thesis
    by (auto simp: js_or_def zero_points_def field_of_def or_undefined_def toInt_undefined toInt_zero)
qed

lemma stored_update_same: "stored (AList.update p v ds) p = v"
  by (simp add: stored_def update_conv')

lemma merge_points_write:
  "merge_fields old [(''points'', JObj [(''daily'', JNum a), (''total'', JNum b)])] =
   AList.update ''points''
     (case map_of old ''points'' of
        Some (JObj p) \<Rightarrow> JObj (AList.update ''total'' (JNum b) (AList.update ''daily'' (JNum a) p))
      | _ \<Rightarrow> JObj [(''daily'', JNum a), (''total'', JNum b)]) old"
  by (auto split: option.splits jsval.splits)

lemma stored_points_write:
  "stored_points (merge_fields old [(''points'', JObj [(''daily'', JNum a), (''total'', JNum b)])]) k =
     (if k = ''daily'' then Some (JNum a) else if k = ''total'' then Some (JNum b)
      else stored_points old k)"
  unfolding merge_points_write
  by (auto simp: stored_points_def update_conv' split: option.splits jsval.splits)

lemma other_fields_write:
  "k \<noteq> ''points'' \<Longrightarrow>
   map_of (merge_fields old [(''points'', JObj [(''daily'', JNum a), (''total'', JNum b)])]) k = map_of old k"
  unfolding merge_points_write by (simp add: update_conv')

lemma distinct_write:
  "distinct (map fst old) \<Longrightarrow>
   distinct (map fst (merge_fields old [(''points'', JObj [(''daily'', JNum a), (''total'', JNum b)])]))"
  unfolding merge_points_write by (simp add: distinct_update)

lemma cur_of_existing:
  assumes "getDoc st (student_path c s) = Some data" "distinct (map fst data)"
  shows "stored_points (cur_of st c s) k = stored_points data k"
  using assms
  by (simp add: cur_of_def getStudent_def stored_points_def map_of_assign_distinct split: option.splits)

lemma cur_of_absent:
  assumes "getDoc st (student_path c s) = None"
  shows "stored_points (cur_of st c s) k = None"
  using assms by (simp add: cur_of_def getStudent_def stored_points_def)

lemma setStudent_requests:
  "requests (setStudent st c s fs) = requests st @ [SetDoc (student_path c s) fs]"
  by (simp add: setStudent_def setDoc_def)

lemma setStudent_stored:
  "stored (docs (setStudent st c s fs)) (student_path c s) =
     merge_fields (stored (docs st) (student_path c s)) fs"
  by (simp add: setStudent_def setDoc_def stored_update_same)

lemma setStudent_getDoc:
  "getDoc (setStudent st c s fs) (student_path c s) =
     Some (merge_fields (stored (docs st) (student_path c s)) fs)"
  by (simp add: setStudent_def setDoc_def getDoc_def update_conv')

lemma setStudent_other:
  "p \<noteq> student_path c s \<Longrightarrow> getDoc (setStudent st c s fs) p = getDoc st p"
  by (simp add: setStudent_def setDoc_def getDoc_def update_conv')

lemma stored_getDoc: "getDoc st p = Some data \<Longrightarrow> stored (docs st) p = data"
  by (simp add: getDoc_def stored_def)

lemma resetDaily_eq:
  "resetDaily B st c s =
     (case getDoc st (student_path c s) of
        None \<Rightarrow> st
      | Some data \<Rightarrow> setStudent st c s
          [(''points'', JObj [(''daily'', JNum (Fin 0)),
             (''total'', JNum (toInt B (or_undefined (stored_points (cur_of st c s) ''total''))))])])"
  by (simp add: resetDaily_def getStudent_def cur_of_def get_opt_points split: option.splits)

lemma resetTotal_eq:
  "resetTotal B st c s =
     (case getDoc st (student_path c s) of
        None \<Rightarrow> st
      | Some data \<Rightarrow> setStudent st c s
          [(''points'', JObj [(''daily'', JNum (toInt B (or_undefined (stored_points (cur_of st c s) ''daily'')))),
             (''total'', JNum (Fin 0))])])"
  by (simp add: resetTotal_def getStudent_def cur_of_def get_opt_points split: option.splits)

lemma incrementPoints_eq:
  "incrementPoints B st c s arg =
     (if arg = JNull then (Inl TypeError, st)
      else (Inr (), setStudent st c s
        [(''points'', JObj
           [(''daily'', js_add B (toInt B (or_undefined (stored_points (cur_of st c s) ''daily'')))
                          (default_to (get_opt arg ''daily'') (JNum (Fin 1)))),
            (''total'', js_add B (toInt B (or_undefined (stored_points (cur_of st c s) ''total'')))
                          (default_to (get_opt arg ''total'') (JNum (Fin 1))))])]))"
proof (cases "arg = JNull")
  case True
  then show ?thesis by (simp add: incrementPoints_def default_to_def reading_def)
next
  case False
  have g: "get (default_to arg (JObj [])) k = Inr (get_opt arg k)" for k
    using False by (cases arg) (auto simp: default_to_def field_of_def)
  show ?thesis using False
    by (simp add: incrementPoints_def reading_def g Let_def pts_read cur_of_def)
qed

lemma reset_written_total:
  assumes "getDoc st (student_path c s) = Some data" "distinct (map fst data)"
  shows "toInt B (or_undefined (stored_points (cur_of st c s) k)) =
         toInt B (or_undefined (stored_points data k))"
  by (simp add: cur_of_existing[OF assms])

lemma normalized_kept:
  assumes "normalized v"
  shows "Some (JNum (toInt B (or_undefined v))) = v"
proof -
  from assms obtain n where v: "v = Some (JNum n)"
    by (auto simp: normalized_def split: option.splits jsval.splits)
  with assms show ?thesis by (simp add: or_undefined_def toInt_normalized)
qed

lemma write_points_existing:
  assumes g: "getDoc st (student_path c s) = Some data"
    and st': "st' = setStudent st c s [(''points'', JObj [(''daily'', JNum a), (''total'', JNum b)])]"
    and data': "data' = stored (docs st') (student_path c s)"
  shows "requests st' = requests st @ [SetDoc (student_path c s)
              [(''points'', JObj [(''daily'', JNum a), (''total'', JNum b)])]]"
    and "getDoc st' (student_path c s) = Some data'"
    and "stored_points data' ''daily'' = Some (JNum a)"
    and "stored_points data' ''total'' = Some (JNum b)"
    and "data' = merge_fields data [(''points'', JObj [(''daily'', JNum a), (''total'', JNum b)])]"
proof -
  show "requests st' = requests st @ [SetDoc (student_path c s)
              [(''points'', JObj [(''daily'', JNum a), (''total'', JNum b)])]]"
    unfolding st' by (rule setStudent_requests)
  show "getDoc st' (student_path c s) = Some data'"
    unfolding st' data' by (simp only: setStudent_getDoc setStudent_stored)
  show m: "data' = merge_fields data [(''points'', JObj [(''daily'', JNum a), (''total'', JNum b)])]"
    unfolding st' data' by (simp only: setStudent_stored stored_getDoc[OF g])
  show "stored_points data' ''daily'' = Some (JNum a)"
    unfolding m by (simp add: stored_points_write del: merge_fields.simps merge_value.simps)
  show "stored_points data' ''total'' = Some (JNum b)"
    unfolding m by (simp add: stored_points_write del: merge_fields.simps merge_value.simps)
qed

lemma setStudent_wrote_points:
  assumes g: "getDoc st (student_path c s) = Some data"
  shows "wrote_points st
           (setStudent st c s [(''points'', JObj [(''daily'', JNum a), (''total'', JNum b)])])
           (student_path c s) data a b"
proof -
  let ?st' = "setStudent st c s [(''points'', JObj [(''daily'', JNum a), (''total'', JNum b)])]"
  note w = write_points_existing[OF g refl refl, of a b]
  have f: "\<forall>k. k \<noteq> ''points'' \<longrightarrow>
      map_of (stored (docs ?st') (student_path c s)) k = map_of data k"
    unfolding w(5) using other_fields_write by blast
  have o: "\<forall>q. q \<noteq> student_path c s \<longrightarrow> getDoc ?st' q = getDoc st q"
    using setStudent_other by blast
  from w(1-4) f o show ?thesis
    unfolding wrote_points_def by blast
qed

text \<open>
  C7, amended: for an absent student \<^verbatim>\<open>resetDaily\<close> and \<^verbatim>\<open>resetTotal\<close> return
  with the store as it was. For an existing student, \<^verbatim>\<open>resetDaily\<close> issues one
  merge-write of \<^verbatim>\<open>{points: {daily: 0, total: toInt(t)}}\<close>, where \<open>t\<close> is the stored
  \<^verbatim>\<open>points.total\<close>: afterwards \<^verbatim>\<open>points.daily\<close> is 0 and \<^verbatim>\<open>points.total\<close> is
  \<^verbatim>\<open>toInt(t)\<close>, which is \<open>t\<close> itself whenever \<open>t\<close> was a non-negative integer;
  the other fields of the student and all other documents are as before.
  \<^verbatim>\<open>resetTotal\<close> does the same with the two fields exchanged.
\<close>

theorem reset_zeroes_one_field:
  "(getDoc st (student_path c s) = None \<longrightarrow>
      resetDaily B st c s = st \<and> resetTotal B st c s = st) \<and>
   (\<forall>data. getDoc st (student_path c s) = Some data \<and> distinct (map fst data) \<longrightarrow>
      wrote_points st (resetDaily B st c s) (student_path c s) data
        (Fin 0) (toInt B (or_undefined (stored_points data ''total''))) \<and>
      (normalized (stored_points data ''total'') \<longrightarrow>
         Some (JNum (toInt B (or_undefined (stored_points data ''total'')))) =
           stored_points data ''total'') \<and>
      wrote_points st (resetTotal B st c s) (student_path c s) data
        (toInt B (or_undefined (stored_points data ''daily''))) (Fin 0) \<and>
      (normalized (stored_points data ''daily'') \<longrightarrow>
         Some (JNum (toInt B (or_undefined (stored_points data ''daily'')))) =
           stored_points data ''daily''))"
proof (intro conjI impI allI)
  assume "getDoc st (student_path c s) = None"
  then show "resetDaily B st c s = st" "resetTotal B st c s = st"
    by (simp_all add: resetDaily_eq resetTotal_eq)
next
  fix data
  assume a: "getDoc st (student_path c s) = Some data \<and> distinct (map fst data)"
  then have g: "getDoc st (student_path c s) = Some data" and d: "distinct (map fst data)"
    by simp_all
  note w = reset_written_total[OF g d]
  let ?t = "toInt B (or_undefined (stored_points data ''total''))"
  let ?d = "toInt B (or_undefined (stored_points data ''daily''))"
  have rd: "resetDaily B st c s = setStudent st c s
      [(''points'', JObj [(''daily'', JNum (Fin 0)), (''total'', JNum ?t)])]"
    by (simp add: resetDaily_eq g w)
  have rt: "resetTotal B st c s = setStudent st c s
      [(''points'', JObj [(''daily'', JNum ?d), (''total'', JNum (Fin 0))])]"
    by (simp add: resetTotal_eq g w)
  show "wrote_points st (resetDaily B st c s) (student_path c s) data (Fin 0) ?t"
    unfolding rd by (rule setStudent_wrote_points[OF g])
  show "wrote_points st (resetTotal B st c s) (student_path c s) data ?d (Fin 0)"
    unfolding rt by (rule setStudent_wrote_points[OF g])
next
  fix data
  assume "normalized (stored_points data ''total'')"
  then show "Some (JNum (toInt B (or_undefined (stored_points data ''total'')))) =
           stored_points data ''total''"
    by (rule normalized_kept)
next
  fix data
  assume "normalized (stored_points data ''daily'')"
  then show "Some (JNum (toInt B (or_undefined (stored_points data ''daily'')))) =
           stored_points data ''daily''"
    by (rule normalized_kept)
qed

text \<open>
  C7, as stated, says that \<^verbatim>\<open>resetDaily\<close> leaves \<^verbatim>\<open>points.total\<close> unchanged for every
  existing student. A student at \<^verbatim>\<open>{daily: 0, total: 0}\<close> who is given
  \<^verbatim>\<open>incrementPoints(..., {daily: -2, total: -2})\<close> has the total \<open>-2\<close>;
  \<^verbatim>\<open>resetDaily\<close> then writes \<^verbatim>\<open>toInt(-2)\<close>, and the total is 0.
\<close>

theorem resetDaily_changes_negative_total:
  "(let p = student_path (JStr ''C'') (JStr ''s1'');
        st1 = snd (incrementPoints sample_builtins sample_store (JStr ''C'') (JStr ''s1'')
                 (JObj [(''daily'', JNum (Fin (- 2))), (''total'', JNum (Fin (- 2)))]));
        st2 = resetDaily sample_builtins st1 (JStr ''C'') (JStr ''s1'')
    in stored_points (stored (docs sample_store) p) ''total'' = Some (JNum (Fin 0)) \<and>
       stored_points (stored (docs st1) p) ''total'' = Some (JNum (Fin (- 2))) \<and>
       stored_points (stored (docs st2) p) ''total'' = Some (JNum (Fin 0)))"
  by code_simp

theorem reset_zeroes_one_field_witness:
  "resetDaily sample_builtins sample_store (JStr ''C'') (JStr ''zz'') = sample_store \<and>
   resetTotal sample_builtins sample_store (JStr ''C'') (JStr ''zz'') = sample_store \<and>
   stored_points (stored (docs (resetDaily sample_builtins sample_store (JStr ''C'') (JStr ''s2'')))
      (student_path (JStr ''C'') (JStr ''s2''))) ''daily'' = Some (JNum (Fin 0)) \<and>
   stored_points (stored (docs (resetDaily sample_builtins sample_store (JStr ''C'') (JStr ''s2'')))
      (student_path (JStr ''C'') (JStr ''s2''))) ''total'' = Some (JNum (Fin 7)) \<and>
   stored_points (stored (docs (resetTotal sample_builtins sample_store (JStr ''C'') (JStr ''s2'')))
      (student_path (JStr ''C'') (JStr ''s2''))) ''daily'' = Some (JNum (Fin 3)) \<and>
   stored_points (stored (docs (resetTotal sample_builtins sample_store (JStr ''C'') (JStr ''s2'')))
      (student_path (JStr ''C'') (JStr ''s2''))) ''total'' = Some (JNum (Fin 0))"
proof -
  let ?data = "[(''name'', JStr ''Bo''),
             (''points'', JObj [(''daily'', JNum (Fin 3)), (''total'', JNum (Fin 7))])]"
  have n: "getDoc sample_store (student_path (JStr ''C'') (JStr ''zz'')) = None"
    by (simp add: getDoc_def sample_store_def student_path_def students_path_def class_path_def)
  have g: "getDoc sample_store (student_path (JStr ''C'') (JStr ''s2'')) = Some ?data \<and>
           distinct (map fst ?data)"
    by (simp add: getDoc_def sample_store_def student_path_def students_path_def class_path_def)
  have t: "normalized (stored_points ?data ''total'')" "normalized (stored_points ?data ''daily'')"
    by (simp_all add: normalized_def stored_points_def)
  have v: "stored_points ?data ''total'' = Some (JNum (Fin 7))"
      "stored_points ?data ''daily'' = Some (JNum (Fin 3))"
    by (simp_all add: stored_points_def)
  note r = reset_zeroes_one_field[of sample_store "JStr ''C''" _ sample_builtins]
  from r[of "JStr ''zz''"] n
  have a: "resetDaily sample_builtins sample_store (JStr ''C'') (JStr ''zz'') = sample_store \<and>
       resetTotal sample_builtins sample_store (JStr ''C'') (JStr ''zz'') = sample_store"
    by blast
  from r[of "JStr ''s2''"] g have
    "wrote_points sample_store (resetDaily sample_builtins sample_store (JStr ''C'') (JStr ''s2''))
       (student_path (JStr ''C'') (JStr ''s2'')) ?data
       (Fin 0) (toInt sample_builtins (or_undefined (stored_points ?data ''total'')))"
    "Some (JNum (toInt sample_builtins (or_undefined (stored_points ?data ''total'')))) =
       stored_points ?data ''total''"
    "wrote_points sample_store (resetTotal sample_builtins sample_store (JStr ''C'') (JStr ''s2''))
       (student_path (JStr ''C'') (JStr ''s2'')) ?data
       (toInt sample_builtins (or_undefined (stored_points ?data ''daily''))) (Fin 0)"
    "Some (JNum (toInt sample_builtins (or_undefined (stored_points ?data ''daily'')))) =
       stored_points ?data ''daily''"
    using t by blast+
  then show ?thesis
    using a v unfolding wrote_points_def
    by (auto simp: stored_getDoc)
qed

lemma incrementPoints_numbers:
  assumes g: "getDoc st (student_path c s) = Some data" and d: "distinct (map fst data)"
  shows "incrementPoints B st c s (JObj [(''daily'', JNum a), (''total'', JNum b)]) =
     (Inr (), setStudent st c s
        [(''points'', JObj
           [(''daily'', JNum (num_add (toInt B (or_undefined (stored_points data ''daily''))) a)),
            (''total'', JNum (num_add (toInt B (or_undefined (stored_points data ''total''))) b))])])"
  by (simp add: incrementPoints_eq cur_of_existing[OF g d] field_of_def default_to_def)

text \<open>
  C6: for a student whose stored \<^verbatim>\<open>points.daily\<close> and \<^verbatim>\<open>points.total\<close> are 0, two
  calls of \<^verbatim>\<open>incrementPoints(db, classId, studentId, {daily: 2, total: 2})\<close>, one after
  the other, both return and leave the stored \<^verbatim>\<open>points.daily\<close> and
  \<^verbatim>\<open>points.total\<close> at 4.
\<close>

theorem incrementPoints_twice:
  assumes "getDoc st (student_path c s) = Some data" and "distinct (map fst data)"
    and "stored_points data ''daily'' = Some (JNum (Fin 0))"
    and "stored_points data ''total'' = Some (JNum (Fin 0))"
  shows "(let two = JObj [(''daily'', JNum (Fin 2)), (''total'', JNum (Fin 2))];
              r1 = incrementPoints B st c s two;
              r2 = incrementPoints B (snd r1) c s two;
              data' = stored (docs (snd r2)) (student_path c s)
          in fst r1 = Inr () \<and> fst r2 = Inr () \<and>
             getDoc (snd r2) (student_path c s) = Some data' \<and>
             stored_points data' ''daily'' = Some (JNum (Fin 4)) \<and>
             stored_points data' ''total'' = Some (JNum (Fin 4)))"
proof -
  let ?two = "JObj [(''daily'', JNum (Fin 2)), (''total'', JNum (Fin 2))]"
  let ?w2 = "[(''points'', JObj [(''daily'', JNum (Fin 2)), (''total'', JNum (Fin 2))])]"
  let ?w4 = "[(''points'', JObj [(''daily'', JNum (Fin 4)), (''total'', JNum (Fin 4))])]"
  let ?st1 = "setStudent st c s ?w2"
  let ?data1 = "stored (docs ?st1) (student_path c s)"
  have r1: "incrementPoints B st c s ?two = (Inr (), ?st1)"
    by (simp add: incrementPoints_numbers[OF assms(1,2)] assms(3,4) or_undefined_def toInt_zero)
  note w1 = write_points_existing[OF assms(1) refl refl, of "Fin 2" "Fin 2"]
  have d1: "distinct (map fst ?data1)"
    unfolding w1(5) by (rule distinct_write[OF assms(2)])
  have two: "toInt B (JNum (Fin 2)) = Fin 2"
    using toInt_fixed[of 2 B] by simp
  have r2: "incrementPoints B ?st1 c s ?two = (Inr (), setStudent ?st1 c s ?w4)"
    by (simp add: incrementPoints_numbers[OF w1(2) d1] w1(3,4) or_undefined_def two)
  note w2 = write_points_existing[OF w1(2) refl refl, of "Fin 4" "Fin 4"]
  show ?thesis
    unfolding Let_def r1 r2 snd_conv fst_conv using w2(2,3,4) by simp
qed

theorem incrementPoints_twice_witness:
  "(let two = JObj [(''daily'', JNum (Fin 2)), (''total'', JNum (Fin 2))];
        r1 = incrementPoints sample_builtins sample_store (JStr ''C'') (JStr ''s1'') two;
        r2 = incrementPoints sample_builtins (snd r1) (JStr ''C'') (JStr ''s1'') two
    in fst r1 = Inr () \<and> fst r2 = Inr () \<and>
       map_of (stored (docs sample_store) (student_path (JStr ''C'') (JStr ''s1''))) ''points'' =
         Some (JObj [(''daily'', JNum (Fin 0)), (''total'', JNum (Fin 0))]) \<and>
       stored_points (stored (docs (snd r2)) (student_path (JStr ''C'') (JStr ''s1''))) ''daily'' =
         Some (JNum (Fin 4)) \<and>
       stored_points (stored (docs (snd r2)) (student_path (JStr ''C'') (JStr ''s1''))) ''total'' =
         Some (JNum (Fin 4)))"
proof -
  let ?data = "[(''name'', JStr ''Al''), (''points'', zero_points)]"
  have g: "getDoc sample_store (student_path (JStr ''C'') (JStr ''s1'')) = Some ?data"
    by (simp add: getDoc_def sample_store_def student_path_def students_path_def class_path_def)
  have d: "distinct (map fst ?data)" by simp
  have p: "stored_points ?data ''daily'' = Some (JNum (Fin 0))"
      "stored_points ?data ''total'' = Some (JNum (Fin 0))"
    by (simp_all add: stored_points_def zero_points_def)
  have s: "map_of (stored (docs sample_store) (student_path (JStr ''C'') (JStr ''s1''))) ''points'' =
         Some (JObj [(''daily'', JNum (Fin 0)), (''total'', JNum (Fin 0))])"
    using g by (simp add: stored_getDoc zero_points_def)
  from incrementPoints_twice[OF g d p, of sample_builtins] s show ?thesis
    unfolding Let_def by blast
qed

section \<open>Non-negative points\<close>

lemma num_add_nonneg: "num_nonneg a \<Longrightarrow> num_nonneg b \<Longrightarrow> num_nonneg (num_add a b)"
  by (cases a; cases b) simp_all

lemma points_nonneg_pair:
  "num_nonneg a \<Longrightarrow> num_nonneg b \<Longrightarrow>
   map_of fs ''points'' = Some (JObj [(''daily'', JNum a), (''total'', JNum b)]) \<Longrightarrow> points_nonneg fs"
  by (simp add: points_nonneg_def field_of_def)

lemma written_same: "written st st = []"
  by (simp add: written_def)

lemma written_setStudent: "written st (setStudent st c s fs) = [SetDoc (student_path c s) fs]"
  by (simp add: written_def setStudent_requests)

lemma written_commit: "written st (commit st ops) = [Commit ops]"
  by (simp add: written_def commit_def)

lemma normalizeStudent_points:
  assumes "\<not> nullish s" "''points'' \<notin> fst ` set (own_props (get_opt s ''_extra''))"
  shows "points_nonneg (spread (canonical B s) (get_opt s ''_extra''))"
proof -
  have "map_of (spread (canonical B s) (get_opt s ''_extra'')) ''points'' = map_of (canonical B s) ''points''"
    unfolding spread_def by (rule map_of_assign_other[OF assms(2)])
  then show ?thesis
    by (intro points_nonneg_pair[OF toInt_nonneg toInt_nonneg]) (simp add: canonical_def)
qed

lemma saveStudentsBatch_cases:
  "(\<exists>e. saveStudentsBatch B st c adds edits dels = (Inl e, st)) \<or>
   (\<exists>st'. saveStudentsBatch B st c adds edits dels = (Inr (), st'))"
  by (auto simp: saveStudentsBatch_def Let_def split: sum.splits)

lemma saveStudentsBatch_writes:
  assumes "\<forall>s\<in>set (adds @ edits). ''points'' \<notin> fst ` set (own_props (get_opt s ''_extra''))"
  shows "list_all event_ok (written st (snd (saveStudentsBatch B st c adds edits dels)))"
proof -
  from saveStudentsBatch_cases[of B st c adds edits dels] show ?thesis
  proof (elim disjE exE)
    fix e assume "saveStudentsBatch B st c adds edits dels = (Inl e, st)"
    then show ?thesis by (simp add: written_same)
  next
    fix st' assume r: "saveStudentsBatch B st c adds edits dels = (Inr (), st')"
    note i = saveStudentsBatch_Inr[OF r]
    from i assms have "\<forall>s\<in>set (adds @ edits). points_nonneg (spread (canonical B s) (get_opt s ''_extra''))"
      using normalizeStudent_points by blast
    then have "list_all op_ok (map (\<lambda>i. Delete (students_path c @ [i])) dels @
           map (\<lambda>s. SetMerge (student_path c (get_opt s ''id''))
                      (spread (canonical B s) (get_opt s ''_extra''))) (adds @ edits))"
      by (auto simp: list_all_iff)
    with i r show ?thesis by (simp add: written_commit)
  qed
qed

lemma js_add_default:
  assumes "nonneg_or_absent v"
  shows "\<exists>n. num_nonneg n \<and> (\<forall>a. js_add B a (default_to v (JNum (Fin 1))) = JNum (num_add a n))"
proof (cases "v = JUndefined")
  case True
  then show ?thesis by (intro exI[of _ "Fin 1"]) (simp add: default_to_def)
next
  case False
  with assms obtain n where "v = JNum n" "num_nonneg n"
    by (cases v) (auto simp: nonneg_or_absent_def)
  then show ?thesis by (intro exI[of _ n]) (simp add: default_to_def)
qed

lemma incrementPoints_writes:
  assumes "nonneg_or_absent (get_opt arg ''daily'')" "nonneg_or_absent (get_opt arg ''total'')"
  shows "list_all event_ok (written st (snd (incrementPoints B st c s arg)))"
proof (cases "arg = JNull")
  case True
  then show ?thesis by (simp add: incrementPoints_eq written_same)
next
  case False
  from js_add_default[OF assms(1), of B] obtain n1 where n1: "num_nonneg n1"
    "\<And>a. js_add B a (default_to (get_opt arg ''daily'') (JNum (Fin 1))) = JNum (num_add a n1)"
    by blast
  from js_add_default[OF assms(2), of B] obtain n2 where n2: "num_nonneg n2"
    "\<And>a. js_add B a (default_to (get_opt arg ''total'') (JNum (Fin 1))) = JNum (num_add a n2)"
    by blast
  have "points_nonneg
     [(''points'', JObj
        [(''daily'', JNum (num_add (toInt B (or_undefined (stored_points (cur_of st c s) ''daily''))) n1)),
         (''total'', JNum (num_add (toInt B (or_undefined (stored_points (cur_of st c s) ''total''))) n2))])]"
    by (rule points_nonneg_pair[OF num_add_nonneg[OF toInt_nonneg n1(1)]
          num_add_nonneg[OF toInt_nonneg n2(1)]]) simp
  with False show ?thesis
    by (simp add: incrementPoints_eq written_setStudent n1(2) n2(2))
qed

lemma num_nonneg_zero: "num_nonneg (Fin 0)"
  by simp

lemma reset_writes:
  "list_all event_ok (written st (resetDaily B st c s))"
  "list_all event_ok (written st (resetTotal B st c s))"
proof -
  have a: "points_nonneg [(''points'', JObj [(''daily'', JNum (Fin 0)), (''total'', JNum (toInt B x))])]" for x
    by (rule points_nonneg_pair[OF num_nonneg_zero toInt_nonneg]) simp
  have b: "points_nonneg [(''points'', JObj [(''daily'', JNum (toInt B x)), (''total'', JNum (Fin 0))])]" for x
    by (rule points_nonneg_pair[OF toInt_nonneg num_nonneg_zero]) simp
  show "list_all event_ok (written st (resetDaily B st c s))"
    using a by (simp add: resetDaily_eq written_same written_setStudent split: option.splits)
  show "list_all event_ok (written st (resetTotal B st c s))"
    using b by (simp add: resetTotal_eq written_same written_setStudent split: option.splits)
qed

lemma add_daily_ok: "op_ok (add_daily B coll d)"
proof -
  obtain i s where d: "d = (i, s)" by (cases d)
  have one: "num_nonneg (Fin 1)" by simp
  show ?thesis
    unfolding d add_daily_def prod.case Let_def op_ok.simps
    by (rule points_nonneg_pair[OF num_add_nonneg[OF toInt_nonneg one]
          num_add_nonneg[OF toInt_nonneg one]]) (simp add: update_conv')
qed

lemma addDailyToAll_writes: "list_all event_ok (written st (addDailyToAll B st c))"
  by (simp add: addDailyToAll_def written_commit list_all_iff add_daily_ok)

text \<open>
  C1, amended: the points fields written are numbers \<^verbatim>\<open>>= 0\<close>
  \<^item> by \<^verbatim>\<open>normalizeStudent\<close>, and by \<^verbatim>\<open>saveStudentsBatch\<close> through it, for records whose
    \<^verbatim>\<open>_extra\<close> has no \<^verbatim>\<open>points\<close> key;
  \<^item> by \<^verbatim>\<open>incrementPoints\<close>, when each of the two increments is left out or is a number
    \<^verbatim>\<open>>= 0\<close>;
  \<^item> by \<^verbatim>\<open>resetDaily\<close>, \<^verbatim>\<open>resetTotal\<close> and \<^verbatim>\<open>addDailyToAll\<close>, always.
\<close>

theorem writes_nonneg:
  "(\<not> nullish x \<and> ''points'' \<notin> fst ` set (own_props (get_opt x ''_extra'')) \<longrightarrow>
      (\<exists>n. normalizeStudent B x = Inr n \<and> points_nonneg n)) \<and>
   ((\<forall>x\<in>set (adds @ edits). ''points'' \<notin> fst ` set (own_props (get_opt x ''_extra''))) \<longrightarrow>
      list_all event_ok (written st (snd (saveStudentsBatch B st c adds edits dels)))) \<and>
   (nonneg_or_absent (get_opt arg ''daily'') \<and> nonneg_or_absent (get_opt arg ''total'') \<longrightarrow>
      list_all event_ok (written st (snd (incrementPoints B st c s arg)))) \<and>
   list_all event_ok (written st (resetDaily B st c s)) \<and>
   list_all event_ok (written st (resetTotal B st c s)) \<and>
   list_all event_ok (written st (addDailyToAll B st c))"
proof (intro conjI impI)
  assume "\<not> nullish x \<and> ''points'' \<notin> fst ` set (own_props (get_opt x ''_extra''))"
  then show "\<exists>n. normalizeStudent B x = Inr n \<and> points_nonneg n"
    using normalizeStudent_eq normalizeStudent_points by blast
next
  assume "\<forall>x\<in>set (adds @ edits). ''points'' \<notin> fst ` set (own_props (get_opt x ''_extra''))"
  then show "list_all event_ok (written st (snd (saveStudentsBatch B st c adds edits dels)))"
    by (rule saveStudentsBatch_writes)
next
  assume "nonneg_or_absent (get_opt arg ''daily'') \<and> nonneg_or_absent (get_opt arg ''total'')"
  then show "list_all event_ok (written st (snd (incrementPoints B st c s arg)))"
    using incrementPoints_writes by blast
qed (rule reset_writes addDailyToAll_writes)+

text \<open>
  C1, as stated, covers \<^verbatim>\<open>incrementPoints\<close> with any increments. The sum
  \<^verbatim>\<open>toInt(pts.daily) + daily\<close> is written as it is: for a student at
  \<^verbatim>\<open>{daily: 0, total: 0}\<close>, the increments \<^verbatim>\<open>{daily: -5, total: -5}\<close> write and store
  \<open>-5\<close> in both fields.
\<close>

theorem incrementPoints_negative_delta:
  "(let st' = snd (incrementPoints sample_builtins sample_store (JStr ''C'') (JStr ''s1'')
                 (JObj [(''daily'', JNum (Fin (- 5))), (''total'', JNum (Fin (- 5)))]))
    in written sample_store st' =
         [SetDoc (student_path (JStr ''C'') (JStr ''s1''))
            [(''points'', JObj [(''daily'', JNum (Fin (- 5))), (''total'', JNum (Fin (- 5)))])]] \<and>
       \<not> list_all event_ok (written sample_store st') \<and>
       stored_points (stored (docs st') (student_path (JStr ''C'') (JStr ''s1''))) ''daily'' =
         Some (JNum (Fin (- 5))) \<and>
       \<not> nonneg (JNum (Fin (- 5))))"
  by code_simp

theorem writes_nonneg_witness:
  "(\<exists>n. normalizeStudent sample_builtins
          (JObj [(''id'', JStr ''a''), (''name'', JStr ''A''), (''total'', JNum (Fin 5))]) = Inr n \<and>
        points_nonneg n) \<and>
   length (written sample_store (snd (saveStudentsBatch sample_builtins sample_store (JStr ''C'')
      [JObj [(''id'', JStr ''a''), (''name'', JStr ''A''), (''total'', JNum (Fin 5))]] []
      [JStr ''s1'']))) = 1 \<and>
   list_all event_ok (written sample_store (snd (saveStudentsBatch sample_builtins sample_store
      (JStr ''C'') [JObj [(''id'', JStr ''a''), (''name'', JStr ''A''), (''total'', JNum (Fin 5))]] []
      [JStr ''s1'']))) \<and>
   written sample_store (snd (incrementPoints sample_builtins sample_store (JStr ''C'') (JStr ''s2'')
      (JObj [(''daily'', JNum (Fin 2))]))) =
     [SetDoc (student_path (JStr ''C'') (JStr ''s2''))
        [(''points'', JObj [(''daily'', JNum (Fin 5)), (''total'', JNum (Fin 8))])]] \<and>
   list_all event_ok (written sample_store (snd (incrementPoints sample_builtins sample_store
      (JStr ''C'') (JStr ''s2'') (JObj [(''daily'', JNum (Fin 2))])))) \<and>
   length (written sample_store (resetDaily sample_builtins sample_store (JStr ''C'') (JStr ''s2''))) = 1 \<and>
   list_all event_ok (written sample_store (resetDaily sample_builtins sample_store (JStr ''C'') (JStr ''s2''))) \<and>
   list_all event_ok (written sample_store (resetTotal sample_builtins sample_store (JStr ''C'') (JStr ''s2''))) \<and>
   length (written sample_store (addDailyToAll sample_builtins sample_store (JStr ''C''))) = 1 \<and>
   list_all event_ok (written sample_store (addDailyToAll sample_builtins sample_store (JStr ''C'')))"
proof -
  let ?x = "JObj [(''id'', JStr ''a''), (''name'', JStr ''A''), (''total'', JNum (Fin 5))]"
  let ?arg = "JObj [(''daily'', JNum (Fin 2))]"
  have h1: "\<not> nullish ?x \<and> ''points'' \<notin> fst ` set (own_props (get_opt ?x ''_extra''))"
    by (simp add: field_of_def)
  have h2: "\<forall>x\<in>set ([?x] @ []). ''points'' \<notin> fst ` set (own_props (get_opt x ''_extra''))"
    by (simp add: field_of_def)
  have h3: "nonneg_or_absent (get_opt ?arg ''daily'') \<and> nonneg_or_absent (get_opt ?arg ''total'')"
    by (simp add: field_of_def nonneg_or_absent_def)
  have e1: "length (written sample_store (snd (saveStudentsBatch sample_builtins sample_store (JStr ''C'')
      [?x] [] [JStr ''s1'']))) = 1"
    by code_simp
  have e2: "written sample_store (snd (incrementPoints sample_builtins sample_store (JStr ''C'') (JStr ''s2'')
      ?arg)) =
     [SetDoc (student_path (JStr ''C'') (JStr ''s2''))
        [(''points'', JObj [(''daily'', JNum (Fin 5)), (''total'', JNum (Fin 8))])]]"
    by code_simp
  have e3: "length (written sample_store (resetDaily sample_builtins sample_store (JStr ''C'') (JStr ''s2''))) = 1"
    by code_simp
  have e4: "length (written sample_store (addDailyToAll sample_builtins sample_store (JStr ''C''))) = 1"
    by code_simp
  note w = writes_nonneg[where x = ?x and B = sample_builtins and adds = "[?x]" and edits = "[]"
      and st = sample_store and c = "JStr ''C''" and dels = "[JStr ''s1'']" and arg = ?arg
      and s = "JStr ''s2''"]
  from w h1 h2 h3 e1 e2 e3 e4 show ?thesis by blast
qed

section \<open>deleteClass\<close>

lemma commit_effect:
  "requests (commit st ops) = requests st @ [Commit ops]"
  "docs (commit st ops) = foldl apply_op (docs st) ops"
  by (simp_all add: commit_def)

lemma delete_loop_inv:
  assumes "length batch = ops mod 400"
  shows "\<exists>bs. loop_post coll ds batch ops st bs (delete_loop coll ds batch ops st)"
  using assms
proof (induction ds arbitrary: batch ops st)
  case Nil
  then show ?case by (intro exI[of _ "[]"]) (simp add: loop_post_def)
next
  case (Cons d ds)
  let ?b1 = "batch @ [Delete (coll @ [fst d])]"
  show ?case
  proof (cases "Suc ops mod 400 = 0")
    case True
    then have len: "length ?b1 = 400"
      using Cons.prems by (simp add: mod_Suc split: if_splits)
    have "length ([]::op list) = Suc ops mod 400" using True by simp
    from Cons.IH[OF this, of "commit st ?b1"] obtain bs where
      bs: "loop_post coll ds [] (Suc ops) (commit st ?b1) bs
             (delete_loop coll ds [] (Suc ops) (commit st ?b1))"
      by blast
    have "loop_post coll (d # ds) batch ops st (?b1 # bs) (delete_loop coll (d # ds) batch ops st)"
      using bs True len
      by (auto simp: loop_post_def Let_def commit_effect split: prod.splits)
    then show ?thesis by blast
  next
    case False
    then have "length ?b1 = Suc ops mod 400"
      using Cons.prems by (simp add: mod_Suc split: if_splits)
    from Cons.IH[OF this, of st] obtain bs where
      bs: "loop_post coll ds ?b1 (Suc ops) st bs (delete_loop coll ds ?b1 (Suc ops) st)"
      by blast
    have "loop_post coll (d # ds) batch ops st bs (delete_loop coll (d # ds) batch ops st)"
      using bs False
      by (auto simp: loop_post_def Let_def split: prod.splits)
    then show ?thesis by blast
  qed
qed

lemma delete_filter: "AList.delete p ds = filter (\<lambda>e. fst e \<noteq> p) ds"
  by (induction ds) auto

lemma foldl_Delete:
  "foldl apply_op ds (map Delete ps) = filter (\<lambda>e. fst e \<notin> set ps) ds"
proof (induction ps arbitrary: ds)
  case Nil
  then show ?case by simp
next
  case (Cons p ps)
  show ?case using Cons.IH[of "AList.delete p ds"]
    by (auto simp: delete_filter intro: filter_cong)
qed

lemma getDocs_paths:
  "map (\<lambda>d. coll @ [fst d]) (getDocs st coll) =
   map fst (filter (\<lambda>e. fst e \<noteq> [] \<and> butlast (fst e) = coll) (docs st))"
proof -
  have "map (\<lambda>d. coll @ [fst d]) [(last p, d). (p, d) \<leftarrow> ds, p \<noteq> [] \<and> butlast p = coll] =
        map fst (filter (\<lambda>e. fst e \<noteq> [] \<and> butlast (fst e) = coll) ds)" for ds :: "(path \<times> fields) list"
    by (induction ds) auto
  then show ?thesis by (simp add: getDocs_def)
qed

lemma getDocs_empty_iff:
  "getDocs st coll = [] \<longleftrightarrow> (\<forall>e\<in>set (docs st). \<not> (fst e \<noteq> [] \<and> butlast (fst e) = coll))"
proof -
  have "[(last p, d). (p, d) \<leftarrow> ds, p \<noteq> [] \<and> butlast p = coll] = [] \<longleftrightarrow>
        (\<forall>e\<in>set ds. \<not> (fst e \<noteq> [] \<and> butlast (fst e) = coll))" for ds :: "(path \<times> fields) list"
    by (induction ds) auto
  then show ?thesis by (simp add: getDocs_def)
qed

lemma length_concat_400:
  "list_all (\<lambda>b. length b = 400) bs \<Longrightarrow> length (concat bs) = 400 * length bs"
  by (induction bs) auto

text \<open>
  C3: \<^verbatim>\<open>deleteClass\<close> sends the store a sequence of batch commits followed by the delete
  of the class document, and nothing else. Every batch has at most 400 operations, and
  every batch but the last exactly 400; together the batches are the deletions of all
  student documents of the class, in the order of the snapshot. Afterwards the class has
  no student document and the class document is absent.
\<close>

theorem deleteClass_batches:
  "\<exists>batches.
     requests (deleteClass st c) = requests st @ map Commit batches @ [DeleteDoc (class_path c)] \<and>
     list_all (\<lambda>b. length b \<le> 400) batches \<and>
     list_all (\<lambda>b. length b = 400) (butlast batches) \<and>
     length batches = length (getDocs st (students_path c)) div 400 + 1 \<and>
     concat batches = map (\<lambda>d. Delete (student_path c (fst d))) (getDocs st (students_path c)) \<and>
     getDocs (deleteClass st c) (students_path c) = [] \<and>
     getDoc (deleteClass st c) (class_path c) = None"
proof -
  let ?sp = "students_path c"
  let ?ds = "getDocs st ?sp"
  let ?ps = "map (\<lambda>d. ?sp @ [fst d]) ?ds"
  obtain b' o' st1 where r: "delete_loop ?sp ?ds [] 0 st = (b', o', st1)"
    by (cases "delete_loop ?sp ?ds [] 0 st") auto
  from delete_loop_inv[of "[]" 0 ?sp ?ds st] obtain bs where
    "loop_post ?sp ?ds [] 0 st bs (delete_loop ?sp ?ds [] 0 st)" by auto
  with r have req: "requests st1 = requests st @ map Commit bs"
    and dcs: "docs st1 = foldl apply_op (docs st) (concat bs)"
    and full: "list_all (\<lambda>b. length b = 400) bs"
    and cat: "concat bs @ b' = map (\<lambda>d. Delete (?sp @ [fst d])) ?ds"
    and lb: "length b' = o' mod 400" and o': "o' = length ?ds"
    by (simp_all add: loop_post_def)
  let ?final = "deleteClass st c"
  have fin: "?final = deleteDoc (commit st1 b') (class_path c)"
    by (simp add: deleteClass_def r)
  have 1: "requests ?final = requests st @ map Commit (bs @ [b']) @ [DeleteDoc (class_path c)]"
    by (simp add: fin deleteDoc_def commit_effect req)
  have small: "length b' < 400" using lb by simp
  have 2: "list_all (\<lambda>b. length b \<le> 400) (bs @ [b'])"
    using full small by (auto simp: list_all_iff)
  have 3: "list_all (\<lambda>b. length b = 400) (butlast (bs @ [b']))"
    using full by simp
  have "length (concat bs) + length b' = length ?ds"
    using arg_cong[OF cat, of length] by simp
  then have "400 * length bs + length ?ds mod 400 = length ?ds"
    using length_concat_400[OF full] lb o' by simp
  then have "400 * length bs = 400 * (length ?ds div 400)"
    using mult_div_mod_eq[of 400 "length ?ds"] by linarith
  then have "length bs = length ?ds div 400"
    by simp
  then have 4: "length (bs @ [b']) = length ?ds div 400 + 1" by simp
  have 5: "concat (bs @ [b']) = map (\<lambda>d. Delete (student_path c (fst d))) ?ds"
    using cat by (simp add: student_path_def)
  have "foldl apply_op (docs st1) b' = foldl apply_op (docs st) (concat bs @ b')"
    by (simp add: dcs)
  also have "\<dots> = foldl apply_op (docs st) (map Delete ?ps)"
    by (simp add: cat comp_def)
  also have "\<dots> = filter (\<lambda>e. fst e \<notin> set ?ps) (docs st)"
    by (rule foldl_Delete)
  finally have d: "docs ?final =
      AList.delete (class_path c) (filter (\<lambda>e. fst e \<notin> set ?ps) (docs st))"
    by (simp add: fin deleteDoc_def commit_effect)
  have 6: "getDocs ?final ?sp = []"
  proof -
    have "\<not> (fst e \<noteq> [] \<and> butlast (fst e) = ?sp)" if "e \<in> set (docs ?final)" for e
    proof
      assume a: "fst e \<noteq> [] \<and> butlast (fst e) = ?sp"
      from that have e: "e \<in> set (docs st)" and n: "fst e \<notin> set ?ps"
        unfolding d delete_filter by simp_all
      from e a have "e \<in> set (filter (\<lambda>e. fst e \<noteq> [] \<and> butlast (fst e) = ?sp) (docs st))"
        by simp
      then have "fst e \<in> set ?ps"
        unfolding getDocs_paths by (simp only: set_map image_eqI[OF refl])
      with n show False by contradiction
    qed
    then show ?thesis unfolding getDocs_empty_iff by blast
  qed
  have 7: "getDoc ?final (class_path c) = None"
    by (simp add: getDoc_def d delete_conv')
  from 1 2 3 4 5 6 7 show ?thesis by blast
qed

theorem deleteClass_batches_witness:
  "\<exists>batches.
     requests (deleteClass sample_store (JStr ''C'')) =
       map Commit batches @ [DeleteDoc (class_path (JStr ''C''))] \<and>
     batches = [[Delete (student_path (JStr ''C'') (JStr ''s1'')),
                 Delete (student_path (JStr ''C'') (JStr ''s2'')),
                 Delete (student_path (JStr ''C'') (JStr ''s3''))]] \<and>
     getDocs sample_store (students_path (JStr ''C'')) \<noteq> [] \<and>
     getDoc sample_store (class_path (JStr ''C'')) \<noteq> None \<and>
     getDocs (deleteClass sample_store (JStr ''C'')) (students_path (JStr ''C'')) = [] \<and>
     getDoc (deleteClass sample_store (JStr ''C'')) (class_path (JStr ''C'')) = None"
proof -
  from deleteClass_batches[of sample_store "JStr ''C''"] obtain batches where b:
    "requests (deleteClass sample_store (JStr ''C'')) =
       requests sample_store @ map Commit batches @ [DeleteDoc (class_path (JStr ''C''))]"
    "concat batches = map (\<lambda>d. Delete (student_path (JStr ''C'') (fst d)))
       (getDocs sample_store (students_path (JStr ''C'')))"
    "length batches = length (getDocs sample_store (students_path (JStr ''C''))) div 400 + 1"
    "getDocs (deleteClass sample_store (JStr ''C'')) (students_path (JStr ''C'')) = []"
    "getDoc (deleteClass sample_store (JStr ''C'')) (class_path (JStr ''C'')) = None"
    by blast
  have ds: "getDocs sample_store (students_path (JStr ''C'')) =
      [(JStr ''s1'', [(''name'', JStr ''Al''), (''points'', zero_points)]),
       (JStr ''s2'', [(''name'', JStr ''Bo''),
             (''points'', JObj [(''daily'', JNum (Fin 3)), (''total'', JNum (Fin 7))])]),
       (JStr ''s3'', [(''name'', JStr ''Cy'')])]"
    by code_simp
  from b(3) have "length batches = 1" by (simp add: ds)
  then obtain x where x: "batches = [x]" by (cases batches) auto
  with b(2) have "batches = [[Delete (student_path (JStr ''C'') (JStr ''s1'')),
                 Delete (student_path (JStr ''C'') (JStr ''s2'')),
                 Delete (student_path (JStr ''C'') (JStr ''s3''))]]"
    by (simp add: ds)
  moreover have "requests sample_store = []" by (simp add: sample_store_def)
  moreover have "getDoc sample_store (class_path (JStr ''C'')) \<noteq> None"
    by (simp add: getDoc_def sample_store_def)
  ultimately show ?thesis using b(1,4,5) ds by auto
qed

section \<open>listClasses\<close>










end
